theory Spec2Isabelle
  imports Main "HOL-Library.Word"
begin

unbundle bit_operations_syntax

section \<open>The hid-cougar driver: data model\<close>

text \<open>
  The development embeds \<^verbatim>\<open>src/module/src/hid-cougar.c\<close>, the HID driver of the
  Cougar 500k keyboard. Bytes are 8-bit words, C \<^verbatim>\<open>int\<close> values that cannot overflow
  here are \<open>int\<close>, and C strings are lists of characters without the terminating NUL.
  Everything the driver prints or asks of the HID core is collected in a list of
  effects, in program order.
\<close>

type_synonym u8 = "8 word"

datatype arg = Str string | Num u8

text \<open>
  Modelled from the spec: the key codes \<^verbatim>\<open>KEY_SPACE\<close>, \<^verbatim>\<open>KEY_F13\<close> ... are macros of the
  kernel's input-event-codes header, which is not in the repository; the spec calls
  the second column of the table an enumerated key symbol. \<open>KEY_RESERVED\<close> is the
  \<^verbatim>\<open>0\<close> in the second column of the terminating row.
\<close>

datatype key = KEY_RESERVED | KEY_SPACE | KEY_F13 | KEY_F14 | KEY_F15 | KEY_F16
  | KEY_F17 | KEY_F18 | KEY_SCREENLOCK

datatype connect_mask = HID_CONNECT_HIDRAW | HID_CONNECT_DEFAULT

type_synonym input_dev = nat

datatype effect =
    Hid_info string "arg list"
  | Hid_warn string "arg list"
  | Hid_err string
  | Input_event input_dev key u8
  | Input_sync input_dev
  | Hid_hw_start connect_mask
  | Hid_hw_stop
  | Hid_hw_open
  | Hid_hw_close

text \<open>
  What goes wrong in C without a return value: a read past the end of a buffer or of
  the mapping array, a dereference of freed shared data, of a NULL driver-data
  pointer, and a \<^verbatim>\<open>kref_put\<close> on a counter that is already zero.
\<close>

datatype fault = Out_Of_Bounds | Use_After_Free | Null_Deref | Refcount_Underflow

definition byte_at :: "u8 list \<Rightarrow> nat \<Rightarrow> u8 option" where
  "byte_at buf i = (if i < length buf then Some (buf ! i) else None)"

section \<open>The report descriptor fixup\<close>

text \<open>
  \<^verbatim>\<open>cougar_report_fixup\<close>. The macro \<^verbatim>\<open>HID_MAX_USAGES\<close> belongs to the kernel's hid.h
  and is the first parameter. \<^verbatim>\<open>&&\<close> evaluates from left to right and stops at the
  first false operand, so the model reads byte 3 only behind byte 2, and bytes 115
  and 116 only behind both. The operands are promoted to \<^verbatim>\<open>int\<close> before \<^verbatim>\<open>|\<close> and
  \<^verbatim>\<open><<\<close>; the two stores convert back to a byte. \<open>rsize\<close> is never read.
  \<open>None\<close> is a read outside the buffer.
\<close>

definition usage_count :: "u8 \<Rightarrow> u8 \<Rightarrow> int" where
  "usage_count lo hi = uint lo OR push_bit 8 (uint hi)"

definition clamp_lo :: "int \<Rightarrow> u8" where
  "clamp_lo HID_MAX_USAGES = word_of_int ((HID_MAX_USAGES - 1) AND 0xff)"

definition clamp_hi :: "int \<Rightarrow> u8" where
  "clamp_hi HID_MAX_USAGES = word_of_int (drop_bit 8 (HID_MAX_USAGES - 1))"

definition cougar_report_fixup :: "int \<Rightarrow> u8 list \<Rightarrow> nat \<Rightarrow> (u8 list \<times> effect list) option" where
  "cougar_report_fixup HID_MAX_USAGES rdesc rsize =
     (case byte_at rdesc 2 of
        None \<Rightarrow> None
      | Some b2 \<Rightarrow>
          if b2 \<noteq> 0x09 then Some (rdesc, [])
          else (case byte_at rdesc 3 of
            None \<Rightarrow> None
          | Some b3 \<Rightarrow>
              if b3 \<noteq> 0x02 then Some (rdesc, [])
              else (case byte_at rdesc 115 of
                None \<Rightarrow> None
              | Some lo \<Rightarrow>
                  (case byte_at rdesc 116 of
                    None \<Rightarrow> None
                  | Some hi \<Rightarrow>
                      if usage_count lo hi \<ge> HID_MAX_USAGES
                      then Some (rdesc[115 := clamp_lo HID_MAX_USAGES, 116 := clamp_hi HID_MAX_USAGES],
                                 [Hid_info ''usage count exceeds max: fixing up report descriptor'' []])
                      else Some (rdesc, [])))))"

section \<open>Device paths\<close>

text \<open>
  Of \<^verbatim>\<open>struct hid_device\<close> the driver reads the path \<^verbatim>\<open>phys\<close>, the usage of the first
  collection and the list of inputs that \<^verbatim>\<open>hid_hw_start\<close> has connected. The address
  of the array \<^verbatim>\<open>phys\<close> is part of the model because \<^verbatim>\<open>compare_device_paths\<close>
  subtracts it from the pointer that \<^verbatim>\<open>strrchr\<close> returns, which is NULL (address 0)
  when the separator does not occur. Pointers have 64 bits; the difference is
  stored in an \<^verbatim>\<open>int\<close> of 32 bits.
\<close>

record hid_input =
  registered :: bool
  hidinput_input :: "input_dev option"

record hid_device =
  phys :: string
  phys_ptr :: "64 word"
  usage :: "32 word"
  inputs :: "hid_input list"

text \<open>\<^verbatim>\<open>strrchr\<close>: the index of the last occurrence of the character, if there is one.\<close>

fun strrchr :: "string \<Rightarrow> char \<Rightarrow> nat option" where
  "strrchr [] c = None"
| "strrchr (x # xs) c =
     (case strrchr xs c of
        Some i \<Rightarrow> Some (Suc i)
      | None \<Rightarrow> if x = c then Some 0 else None)"

text \<open>
  \<^verbatim>\<open>strncmp\<close> as the kernel's library has it: the first difference within \<open>count\<close>
  characters decides, and the end of either string stops the comparison.
\<close>

fun strncmp :: "string \<Rightarrow> string \<Rightarrow> nat \<Rightarrow> int" where
  "strncmp cs ct 0 = 0"
| "strncmp [] [] (Suc n) = 0"
| "strncmp [] (y # ys) (Suc n) = - 1"
| "strncmp (x # xs) [] (Suc n) = 1"
| "strncmp (x # xs) (y # ys) (Suc n) =
     (if x \<noteq> y then (if (of_char x :: nat) < of_char y then - 1 else 1)
      else strncmp xs ys n)"

definition strrchr_ptr :: "hid_device \<Rightarrow> char \<Rightarrow> 64 word" where
  "strrchr_ptr hdev c =
     (case strrchr (phys hdev) c of
        None \<Rightarrow> 0
      | Some i \<Rightarrow> phys_ptr hdev + of_nat i)"

definition ptr_diff_int :: "64 word \<Rightarrow> 64 word \<Rightarrow> int" where
  "ptr_diff_int p q = sint (ucast (p - q) :: 32 word)"

definition compare_device_paths :: "hid_device \<Rightarrow> hid_device \<Rightarrow> char \<Rightarrow> bool" where
  "compare_device_paths hdev_a hdev_b separator =
     (let n1 = ptr_diff_int (strrchr_ptr hdev_a separator) (phys_ptr hdev_a);
          n2 = ptr_diff_int (strrchr_ptr hdev_b separator) (phys_ptr hdev_b)
      in if n1 \<noteq> n2 \<or> n1 \<le> 0 \<or> n2 \<le> 0 then False
         else strncmp (phys hdev_a) (phys hdev_b) (nat n1) = 0)"

section \<open>The shared data and its reference count\<close>

text \<open>
  \<^verbatim>\<open>struct cougar_shared\<close> embeds its list node, so the list \<^verbatim>\<open>cougar_udev_list\<close> is
  the collection of the shared objects themselves: an object is allocated exactly
  while it is on the list. The registry is that list, each object with its address,
  in list order. \<^verbatim>\<open>kref\<close> is the counter; \<^verbatim>\<open>dev\<close> holds the device the pointer refers
  to (the driver only reads it).
\<close>

type_synonym shared_ptr = nat

record cougar_shared =
  kref :: nat
  enabled :: bool
  dev :: hid_device
  input :: "input_dev option"

record cougar =
  special_intf :: bool
  shared :: "shared_ptr option"

type_synonym registry = "(shared_ptr \<times> cougar_shared) list"

fun cougar_get_shared_data :: "hid_device \<Rightarrow> registry \<Rightarrow> (shared_ptr \<times> registry) option" where
  "cougar_get_shared_data hdev [] = None"
| "cougar_get_shared_data hdev ((p, sh) # rest) =
     (if compare_device_paths hdev (dev sh) CHR ''/''
      then Some (p, (p, sh\<lparr>kref := kref sh + 1\<rparr>) # rest)
      else (case cougar_get_shared_data hdev rest of
              None \<Rightarrow> None
            | Some (q, rest') \<Rightarrow> Some (q, (p, sh) # rest')))"

text \<open>\<^verbatim>\<open>cougar_release_shared_data\<close>: \<^verbatim>\<open>list_del\<close> and \<^verbatim>\<open>kfree\<close> of the object at \<open>p\<close>.\<close>

definition cougar_release_shared_data :: "shared_ptr \<Rightarrow> registry \<Rightarrow> registry" where
  "cougar_release_shared_data p reg = filter (\<lambda>(q, sh). q \<noteq> p) reg"

definition set_kref :: "shared_ptr \<Rightarrow> nat \<Rightarrow> registry \<Rightarrow> registry" where
  "set_kref p k reg = map (\<lambda>(q, sh). if q = p then (q, sh\<lparr>kref := k\<rparr>) else (q, sh)) reg"

text \<open>
  \<^verbatim>\<open>kref_put\<close> with \<^verbatim>\<open>cougar_release_shared_data\<close> as its release function: the
  counter goes down by one and the object is released when it reaches zero.
\<close>

definition kref_put :: "shared_ptr \<Rightarrow> registry \<Rightarrow> fault + registry" where
  "kref_put p reg =
     (case map_of reg p of
        None \<Rightarrow> Inl Use_After_Free
      | Some sh \<Rightarrow>
          if kref sh = 0 then Inl Refcount_Underflow
          else if kref sh - 1 = 0 then Inr (cougar_release_shared_data p reg)
          else Inr (set_kref p (kref sh - 1) reg))"

definition cougar_remove_shared_data :: "cougar \<Rightarrow> registry \<Rightarrow> fault + (cougar \<times> registry)" where
  "cougar_remove_shared_data cougar reg =
     (case shared cougar of
        None \<Rightarrow> Inr (cougar, reg)
      | Some p \<Rightarrow>
          (case kref_put p reg of
             Inl f \<Rightarrow> Inl f
           | Inr reg' \<Rightarrow> Inr (cougar\<lparr>shared := None\<rparr>, reg')))"

text \<open>
  Modelled from the spec: \<^verbatim>\<open>ENOMEM\<close> is a macro of the kernel's errno header, not in
  the repository; the spec calls the error resource exhaustion. Only that it is not
  zero matters here.
\<close>

definition ENOMEM :: int where
  "ENOMEM = 12"

text \<open>
  The result of \<^verbatim>\<open>cougar_bind_shared_data\<close>: the return value, the \<^verbatim>\<open>struct cougar\<close>
  as the call leaves it, the registry, and whether \<^verbatim>\<open>cougar_remove_shared_data\<close> now
  stands among the managed actions of the device.
\<close>

record bind_result =
  bind_error :: int
  bind_cougar :: cougar
  bind_registry :: registry
  bind_action :: bool

text \<open>
  \<open>kz\<close> is what \<^verbatim>\<open>kzalloc\<close> returns if it is called (\<open>None\<close> for NULL), \<open>da\<close> what
  \<^verbatim>\<open>devm_add_action\<close> returns. The new object is zeroed, its counter initialised to
  one by \<^verbatim>\<open>kref_init\<close>, and it is added at the tail of the list.
\<close>

definition cougar_bind_shared_data ::
  "shared_ptr option \<Rightarrow> int \<Rightarrow> hid_device \<Rightarrow> cougar \<Rightarrow> registry \<Rightarrow> fault + bind_result" where
  "cougar_bind_shared_data kz da hdev cougar reg =
     (let found =
        (case cougar_get_shared_data hdev reg of
           Some (p, reg') \<Rightarrow> Some (p, reg')
         | None \<Rightarrow>
             (case kz of
                None \<Rightarrow> None
              | Some p \<Rightarrow>
                  Some (p, reg @ [(p, \<lparr>kref = 1, enabled = False, dev = hdev, input = None\<rparr>)])))
      in case found of
           None \<Rightarrow>
             Inr \<lparr>bind_error = - ENOMEM, bind_cougar = cougar, bind_registry = reg,
                  bind_action = False\<rparr>
         | Some (p, reg') \<Rightarrow>
             if da \<noteq> 0
             then (case cougar_remove_shared_data (cougar\<lparr>shared := Some p\<rparr>) reg' of
                     Inl f \<Rightarrow> Inl f
                   | Inr (cougar', reg'') \<Rightarrow>
                       Inr \<lparr>bind_error = da, bind_cougar = cougar', bind_registry = reg'',
                            bind_action = False\<rparr>)
             else Inr \<lparr>bind_error = 0, bind_cougar = cougar\<lparr>shared := Some p\<rparr>,
                       bind_registry = reg', bind_action = True\<rparr>)"

section \<open>The key mapping\<close>

definition COUGAR_KEY_G1 :: u8 where "COUGAR_KEY_G1 = 0x83"
definition COUGAR_KEY_G2 :: u8 where "COUGAR_KEY_G2 = 0x84"
definition COUGAR_KEY_G3 :: u8 where "COUGAR_KEY_G3 = 0x85"
definition COUGAR_KEY_G4 :: u8 where "COUGAR_KEY_G4 = 0x86"
definition COUGAR_KEY_G5 :: u8 where "COUGAR_KEY_G5 = 0x87"
definition COUGAR_KEY_G6 :: u8 where "COUGAR_KEY_G6 = 0x78"
definition COUGAR_KEY_LOCK :: u8 where "COUGAR_KEY_LOCK = 0x6e"

definition COUGAR_FIELD_CODE :: nat where "COUGAR_FIELD_CODE = 1"
definition COUGAR_FIELD_ACTION :: nat where "COUGAR_FIELD_ACTION = 2"

type_synonym mapping = "(u8 \<times> key) list"

text \<open>The array \<^verbatim>\<open>cougar_mapping\<close> as the source initialises it, the row of zeros last.\<close>

definition cougar_mapping_init :: mapping where
  "cougar_mapping_init =
     [(COUGAR_KEY_G6, KEY_SPACE),
      (COUGAR_KEY_G1, KEY_F13),
      (COUGAR_KEY_G2, KEY_F14),
      (COUGAR_KEY_G3, KEY_F15),
      (COUGAR_KEY_G4, KEY_F16),
      (COUGAR_KEY_G5, KEY_F17),
      (COUGAR_KEY_LOCK, KEY_SCREENLOCK),
      (0, KEY_RESERVED)]"

text \<open>
  \<^verbatim>\<open>cougar_fix_g6_mapping\<close>: the loop walks the rows until one has source code 0. A
  table without such a row is walked past its end. The messages are kept without
  their newline.
\<close>

fun cougar_fix_g6_mapping :: "int \<Rightarrow> mapping \<Rightarrow> fault + (mapping \<times> effect list)" where
  "cougar_fix_g6_mapping g6 [] = Inl Out_Of_Bounds"
| "cougar_fix_g6_mapping g6 ((c, k) # rest) =
     (if c = 0 then Inr ((c, k) # rest, [Hid_warn ''no mapping defined for G6/spacebar'' []])
      else if c = COUGAR_KEY_G6
      then Inr ((c, if g6 \<noteq> 0 then KEY_SPACE else KEY_F18) # rest,
                [Hid_info ''G6 mapped to %s'' [Str (if g6 \<noteq> 0 then ''space'' else ''F18'')]])
      else (case cougar_fix_g6_mapping g6 rest of
              Inl f \<Rightarrow> Inl f
            | Inr (rest', es) \<Rightarrow> Inr ((c, k) # rest', es)))"

text \<open>The loop of \<^verbatim>\<open>cougar_raw_event\<close> over the same rows.\<close>

fun raw_event_loop :: "mapping \<Rightarrow> input_dev \<Rightarrow> u8 \<Rightarrow> u8 \<Rightarrow> fault + (int \<times> effect list)" where
  "raw_event_loop [] inp code action = Inl Out_Of_Bounds"
| "raw_event_loop ((c, k) # rest) inp code action =
     (if c = 0
      then Inr (0, [Hid_warn ''unmapped special key code %x: ignoring'' [Num code]])
      else if code = c then Inr (0, [Input_event inp k action, Input_sync inp])
      else raw_event_loop rest inp code action)"

section \<open>The driver\<close>

text \<open>
  The globals of the module: the parameter \<^verbatim>\<open>g6_is_space\<close>, the mapping array and the
  list of shared objects. \<open>module_loaded\<close> is their state when the module has been
  loaded with the parameter given; the parameter's default is 1.
\<close>

record driver =
  cougar_g6_is_space :: int
  cougar_mapping :: mapping
  cougar_udev_list :: registry

definition module_loaded :: "int \<Rightarrow> driver" where
  "module_loaded g6 =
     \<lparr>cougar_g6_is_space = g6, cougar_mapping = cougar_mapping_init, cougar_udev_list = []\<rparr>"

definition COUGAR_VENDOR_USAGE :: "32 word" where
  "COUGAR_VENDOR_USAGE = 0xff00ff00"

text \<open>
  Modelled from the spec: \<^verbatim>\<open>HID_GD_KEYBOARD\<close> is a macro of the kernel's hid.h, not in the
  repository; the spec calls it the fixed keyboard usage constant. The value is the
  usage Generic Desktop / Keyboard of the HID usage tables.
\<close>

definition HID_GD_KEYBOARD :: "32 word" where
  "HID_GD_KEYBOARD = 0x00010006"

text \<open>
  \<^verbatim>\<open>cougar_raw_event\<close>. \<open>drvdata\<close> is what \<^verbatim>\<open>hid_get_drvdata\<close> returns, \<open>data\<close> the
  buffer of the report; the parameter \<^verbatim>\<open>size\<close> (here \<open>sz\<close>) is never read. The four tests of the guard are
  evaluated from left to right.
\<close>

definition cougar_raw_event ::
  "cougar option \<Rightarrow> driver \<Rightarrow> u8 list \<Rightarrow> int \<Rightarrow> fault + (int \<times> effect list)" where
  "cougar_raw_event drvdata drv data sz =
     (case drvdata of
        None \<Rightarrow> Inl Null_Deref
      | Some cougar \<Rightarrow>
          if \<not> special_intf cougar then Inr (0, [])
          else (case shared cougar of
            None \<Rightarrow> Inr (0, [])
          | Some p \<Rightarrow>
              (case map_of (cougar_udev_list drv) p of
                 None \<Rightarrow> Inl Use_After_Free
               | Some sh \<Rightarrow>
                   (case input sh of
                      None \<Rightarrow> Inr (0, [])
                    | Some inp \<Rightarrow>
                        if \<not> enabled sh then Inr (0, [])
                        else (case byte_at data COUGAR_FIELD_CODE of
                          None \<Rightarrow> Inl Out_Of_Bounds
                        | Some code \<Rightarrow>
                            (case byte_at data COUGAR_FIELD_ACTION of
                               None \<Rightarrow> Inl Out_Of_Bounds
                             | Some action \<Rightarrow>
                                 raw_event_loop (cougar_mapping drv) inp code action))))))"

definition set_enabled :: "shared_ptr \<Rightarrow> bool \<Rightarrow> registry \<Rightarrow> registry" where
  "set_enabled p b reg = map (\<lambda>(q, sh). if q = p then (q, sh\<lparr>enabled := b\<rparr>) else (q, sh)) reg"

definition set_input :: "shared_ptr \<Rightarrow> input_dev \<Rightarrow> registry \<Rightarrow> registry" where
  "set_input p inp reg =
     map (\<lambda>(q, sh). if q = p then (q, sh\<lparr>input := Some inp\<rparr>) else (q, sh)) reg"

text \<open>
  \<^verbatim>\<open>cougar_remove\<close>: the shared data is disabled, the vendor interface closed, the
  hardware stopped. The reference is not dropped here.
\<close>

definition cougar_remove :: "cougar option \<Rightarrow> registry \<Rightarrow> fault + (registry \<times> effect list)" where
  "cougar_remove drvdata reg =
     (case drvdata of
        None \<Rightarrow> Inr (reg, [Hid_hw_stop])
      | Some cougar \<Rightarrow>
          (case (case shared cougar of
                   None \<Rightarrow> Inr reg
                 | Some p \<Rightarrow>
                     (case map_of reg p of
                        None \<Rightarrow> Inl Use_After_Free
                      | Some sh \<Rightarrow> Inr (set_enabled p False reg))) of
             Inl f \<Rightarrow> Inl f
           | Inr reg' \<Rightarrow>
               Inr (reg', (if special_intf cougar then [Hid_hw_close] else []) @ [Hid_hw_stop])))"

text \<open>
  What the kernel answers during one call of \<^verbatim>\<open>cougar_probe\<close>: whether \<^verbatim>\<open>devm_kzalloc\<close>
  succeeds, and the return values of \<^verbatim>\<open>hid_parse\<close>, \<^verbatim>\<open>hid_hw_start\<close>, \<^verbatim>\<open>kzalloc\<close>,
  \<^verbatim>\<open>devm_add_action\<close> and \<^verbatim>\<open>hid_hw_open\<close>.
\<close>

record probe_env =
  devm_kzalloc_ok :: bool
  hid_parse_ret :: int
  hid_hw_start_ret :: int
  kzalloc_ret :: "shared_ptr option"
  devm_add_action_ret :: int
  hid_hw_open_ret :: int

text \<open>
  What the call leaves: its return value, the \<^verbatim>\<open>struct cougar\<close> it allocated (device
  managed memory, so it outlives a failed call until the managed resources are
  released), whether the driver data of the device points to it, whether the
  managed action \<^verbatim>\<open>cougar_remove_shared_data\<close> is registered, and the globals.
\<close>

record probe_result =
  probe_ret :: int
  probe_cougar :: "cougar option"
  probe_drvdata :: bool
  probe_action :: bool
  probe_driver :: driver
  probe_effects :: "effect list"

text \<open>The loop of \<^verbatim>\<open>cougar_probe\<close> over \<^verbatim>\<open>hdev->inputs\<close>, left at the first hit.\<close>

fun probe_find_input :: "hid_input list \<Rightarrow> input_dev option" where
  "probe_find_input [] = None"
| "probe_find_input (h # hs) =
     (if registered h \<and> hidinput_input h \<noteq> None then hidinput_input h
      else probe_find_input hs)"

definition cougar_probe :: "probe_env \<Rightarrow> hid_device \<Rightarrow> driver \<Rightarrow> fault + probe_result" where
  "cougar_probe env hdev drv =
     (if \<not> devm_kzalloc_ok env
      then Inr \<lparr>probe_ret = - ENOMEM, probe_cougar = None, probe_drvdata = False,
                probe_action = False, probe_driver = drv, probe_effects = []\<rparr>
      else if hid_parse_ret env \<noteq> 0
      then Inr \<lparr>probe_ret = hid_parse_ret env,
                probe_cougar = Some \<lparr>special_intf = False, shared = None\<rparr>,
                probe_drvdata = False, probe_action = False, probe_driver = drv,
                probe_effects = [Hid_err ''parse failed'']\<rparr>
      else
        let cougar = \<lparr>special_intf = (usage hdev = COUGAR_VENDOR_USAGE), shared = None\<rparr>;
            connect_mask = (if usage hdev = COUGAR_VENDOR_USAGE then HID_CONNECT_HIDRAW
                            else HID_CONNECT_DEFAULT)
        in if hid_hw_start_ret env \<noteq> 0
           then Inr \<lparr>probe_ret = hid_hw_start_ret env, probe_cougar = Some cougar,
                     probe_drvdata = False, probe_action = False, probe_driver = drv,
                     probe_effects = [Hid_hw_start connect_mask, Hid_err ''hw start failed'']\<rparr>
           else (case cougar_bind_shared_data (kzalloc_ret env) (devm_add_action_ret env)
                        hdev cougar (cougar_udev_list drv) of
             Inl f \<Rightarrow> Inl f
           | Inr b \<Rightarrow>
               if bind_error b \<noteq> 0
               then Inr \<lparr>probe_ret = bind_error b, probe_cougar = Some (bind_cougar b),
                         probe_drvdata = False, probe_action = bind_action b,
                         probe_driver = drv\<lparr>cougar_udev_list := bind_registry b\<rparr>,
                         probe_effects = [Hid_hw_start connect_mask, Hid_hw_stop]\<rparr>
               else if usage hdev = HID_GD_KEYBOARD
               then (case cougar_fix_g6_mapping (cougar_g6_is_space drv) (cougar_mapping drv) of
                 Inl f \<Rightarrow> Inl f
               | Inr (tbl, es) \<Rightarrow>
                   (case probe_find_input (inputs hdev) of
                      None \<Rightarrow>
                        Inr \<lparr>probe_ret = 0, probe_cougar = Some (bind_cougar b),
                             probe_drvdata = True, probe_action = bind_action b,
                             probe_driver = drv\<lparr>cougar_mapping := tbl,
                                                cougar_udev_list := bind_registry b\<rparr>,
                             probe_effects = Hid_hw_start connect_mask # es\<rparr>
                    | Some inp \<Rightarrow>
                        (case shared (bind_cougar b) of
                           None \<Rightarrow> Inl Null_Deref
                         | Some p \<Rightarrow>
                             (case map_of (bind_registry b) p of
                                None \<Rightarrow> Inl Use_After_Free
                              | Some sh \<Rightarrow>
                                  Inr \<lparr>probe_ret = 0, probe_cougar = Some (bind_cougar b),
                                       probe_drvdata = True, probe_action = bind_action b,
                                       probe_driver = drv\<lparr>cougar_mapping := tbl,
                                         cougar_udev_list :=
                                           set_enabled p True (set_input p inp (bind_registry b))\<rparr>,
                                       probe_effects = Hid_hw_start connect_mask # es\<rparr>))))
               else if usage hdev = COUGAR_VENDOR_USAGE
               then (if hid_hw_open_ret env \<noteq> 0
                     then Inr \<lparr>probe_ret = hid_hw_open_ret env,
                               probe_cougar = Some (bind_cougar b), probe_drvdata = False,
                               probe_action = bind_action b,
                               probe_driver = drv\<lparr>cougar_udev_list := bind_registry b\<rparr>,
                               probe_effects =
                                 [Hid_hw_start connect_mask, Hid_hw_open, Hid_hw_stop]\<rparr>
                     else Inr \<lparr>probe_ret = 0, probe_cougar = Some (bind_cougar b),
                               probe_drvdata = True, probe_action = bind_action b,
                               probe_driver = drv\<lparr>cougar_udev_list := bind_registry b\<rparr>,
                               probe_effects = [Hid_hw_start connect_mask, Hid_hw_open]\<rparr>)
               else Inr \<lparr>probe_ret = 0, probe_cougar = Some (bind_cougar b),
                         probe_drvdata = True, probe_action = bind_action b,
                         probe_driver = drv\<lparr>cougar_udev_list := bind_registry b\<rparr>,
                         probe_effects = [Hid_hw_start connect_mask]\<rparr>))"

section \<open>Managed resources and sequences of calls\<close>

text \<open>
  Modelled from the spec: the driver core that calls \<^verbatim>\<open>cougar_probe\<close> is kernel code,
  not in the repository. The action that \<^verbatim>\<open>cougar_bind_shared_data\<close> registers with
  \<^verbatim>\<open>devm_add_action\<close> is run by it when the managed resources of the device are
  released, after \<^verbatim>\<open>cougar_remove\<close> on detach and after a probe that returned an
  error; the spec has the attach unwind what the same call acquired before the error
  reaches the host. \<open>devres_release_all\<close> runs the action if it is registered, on
  the \<^verbatim>\<open>struct cougar\<close> it was registered with; \<open>really_probe\<close> is the probe as the
  host sees it.
\<close>

definition devres_release_all :: "bool \<Rightarrow> cougar option \<Rightarrow> registry \<Rightarrow> fault + registry" where
  "devres_release_all action cougar_mem reg =
     (if \<not> action then Inr reg
      else (case cougar_mem of
        None \<Rightarrow> Inl Null_Deref
      | Some cougar \<Rightarrow>
          (case cougar_remove_shared_data cougar reg of
             Inl f \<Rightarrow> Inl f
           | Inr (cougar', reg') \<Rightarrow> Inr reg')))"

definition really_probe :: "probe_env \<Rightarrow> hid_device \<Rightarrow> driver \<Rightarrow> fault + probe_result" where
  "really_probe env hdev drv =
     (case cougar_probe env hdev drv of
        Inl f \<Rightarrow> Inl f
      | Inr res \<Rightarrow>
          if probe_ret res = 0 then Inr res
          else (case devres_release_all (probe_action res) (probe_cougar res)
                       (cougar_udev_list (probe_driver res)) of
            Inl f \<Rightarrow> Inl f
          | Inr reg \<Rightarrow>
              Inr (res\<lparr>probe_cougar := None, probe_action := False,
                       probe_driver := (probe_driver res)\<lparr>cougar_udev_list := reg\<rparr>\<rparr>)))"

text \<open>
  Everything that writes the globals, in any order and with any arguments: the entry
  points of the driver, and a write of the module parameter, which
  \<^verbatim>\<open>module_param_named(g6_is_space, cougar_g6_is_space, int, 0600)\<close> allows at run
  time. The write stores the value and nothing else: the mapping array is not
  touched. Every state the driver can be in is the result of such a sequence from
  \<open>module_loaded\<close>.
\<close>

datatype call =
    Call_probe probe_env hid_device
  | Call_remove "cougar option"
  | Call_remove_shared_data cougar
  | Call_set_g6_is_space int

fun do_call :: "call \<Rightarrow> driver \<Rightarrow> fault + driver" where
  "do_call (Call_probe env hdev) drv =
     (case cougar_probe env hdev drv of
        Inl f \<Rightarrow> Inl f
      | Inr res \<Rightarrow> Inr (probe_driver res))"
| "do_call (Call_remove drvdata) drv =
     (case cougar_remove drvdata (cougar_udev_list drv) of
        Inl f \<Rightarrow> Inl f
      | Inr (reg, es) \<Rightarrow> Inr (drv\<lparr>cougar_udev_list := reg\<rparr>))"
| "do_call (Call_remove_shared_data cougar) drv =
     (case cougar_remove_shared_data cougar (cougar_udev_list drv) of
        Inl f \<Rightarrow> Inl f
      | Inr (cougar', reg) \<Rightarrow> Inr (drv\<lparr>cougar_udev_list := reg\<rparr>))"
| "do_call (Call_set_g6_is_space v) drv = Inr (drv\<lparr>cougar_g6_is_space := v\<rparr>)"

fun do_calls :: "call list \<Rightarrow> driver \<Rightarrow> fault + driver" where
  "do_calls [] drv = Inr drv"
| "do_calls (c # cs) drv =
     (case do_call c drv of
        Inl f \<Rightarrow> Inl f
      | Inr drv' \<Rightarrow> do_calls cs drv')"

section \<open>Interfaces of one device acquiring and releasing\<close>

text \<open>
  A group of interfaces, numbered, each with its device and its \<^verbatim>\<open>struct cougar\<close>.
  \<open>Acquire i p\<close> is \<^verbatim>\<open>cougar_bind_shared_data\<close> for interface \<open>i\<close> where \<^verbatim>\<open>kzalloc\<close>
  would return \<open>p\<close> and \<^verbatim>\<open>devm_add_action\<close> succeeds; \<open>Release i\<close> is the managed
  action \<^verbatim>\<open>cougar_remove_shared_data\<close> of interface \<open>i\<close>.
\<close>

record group =
  bindings :: "nat \<Rightarrow> cougar"
  shared_list :: registry

datatype event = Acquire nat shared_ptr | Release nat

fun exec_event :: "(nat \<Rightarrow> hid_device) \<Rightarrow> event \<Rightarrow> group \<Rightarrow> fault + group" where
  "exec_event devs (Acquire i p) s =
     (case cougar_bind_shared_data (Some p) 0 (devs i) (bindings s i) (shared_list s) of
        Inl f \<Rightarrow> Inl f
      | Inr b \<Rightarrow>
          Inr \<lparr>bindings = (bindings s)(i := bind_cougar b), shared_list = bind_registry b\<rparr>)"
| "exec_event devs (Release i) s =
     (case cougar_remove_shared_data (bindings s i) (shared_list s) of
        Inl f \<Rightarrow> Inl f
      | Inr (cougar', reg) \<Rightarrow> Inr \<lparr>bindings = (bindings s)(i := cougar'), shared_list = reg\<rparr>)"

fun exec_events :: "(nat \<Rightarrow> hid_device) \<Rightarrow> event list \<Rightarrow> group \<Rightarrow> fault + group" where
  "exec_events devs [] s = Inr s"
| "exec_events devs (e # es) s =
     (case exec_event devs e s of
        Inl f \<Rightarrow> Inl f
      | Inr s' \<Rightarrow> exec_events devs es s')"

text \<open>
  A schedule is in order when an interface is acquired only while it holds nothing
  and released only while it holds its reference; \<open>H\<close> is the set of interfaces that
  hold one at the start.
\<close>

fun in_order :: "nat set \<Rightarrow> event list \<Rightarrow> bool" where
  "in_order H [] = True"
| "in_order H (Acquire i p # es) = (i \<notin> H \<and> in_order (insert i H) es)"
| "in_order H (Release i # es) = (i \<in> H \<and> in_order (H - {i}) es)"

fun acquires :: "event list \<Rightarrow> nat" where
  "acquires [] = 0"
| "acquires (Acquire i p # es) = Suc (acquires es)"
| "acquires (Release i # es) = acquires es"

fun releases :: "event list \<Rightarrow> nat" where
  "releases [] = 0"
| "releases (Acquire i p # es) = releases es"
| "releases (Release i # es) = Suc (releases es)"

fun allocations :: "event list \<Rightarrow> shared_ptr set" where
  "allocations [] = {}"
| "allocations (Acquire i p # es) = insert p (allocations es)"
| "allocations (Release i # es) = allocations es"

text \<open>
  The paths of the group: every device has its last separator at the same index
  \<open>n\<close>, not 0, and the same \<open>n\<close> characters before it. \<^verbatim>\<open>phys\<close> is an array of 64
  characters.
\<close>

definition path_prefix :: "hid_device \<Rightarrow> nat \<Rightarrow> string \<Rightarrow> bool" where
  "path_prefix hdev n pre =
     (strrchr (phys hdev) CHR ''/'' = Some n \<and> 0 < n \<and> take n (phys hdev) = pre
      \<and> length (phys hdev) < 64)"

definition no_match :: "hid_device \<Rightarrow> registry \<Rightarrow> bool" where
  "no_match hdev reg = list_all (\<lambda>(p, sh). \<not> compare_device_paths hdev (dev sh) CHR ''/'') reg"

section \<open>Invariants and example data\<close>

text \<open>
  What the proofs about schedules carry along. \<open>iface\<close> is the interface of an
  event and \<open>held_after\<close> the set of interfaces that hold a reference after a
  schedule. \<open>group_inv\<close> relates that set to the state: the list is the initial
  list \<open>r0\<close> while nobody holds a reference, and \<open>r0\<close> followed by one object of
  the group, counted once per holder, otherwise.
\<close>

fun iface :: "event \<Rightarrow> nat" where
  "iface (Acquire i p) = i"
| "iface (Release i) = i"

fun held_after :: "nat set \<Rightarrow> event list \<Rightarrow> nat set" where
  "held_after H [] = H"
| "held_after H (Acquire i p # es) = held_after (insert i H) es"
| "held_after H (Release i # es) = held_after (H - {i}) es"

definition group_inv ::
  "(nat \<Rightarrow> hid_device) \<Rightarrow> nat \<Rightarrow> registry \<Rightarrow> nat set \<Rightarrow> group \<Rightarrow> bool" where
  "group_inv devs N r0 H s \<longleftrightarrow>
     H \<subseteq> {..<N} \<and> (\<forall>i<N. (shared (bindings s i) \<noteq> None) = (i \<in> H)) \<and>
     (if H = {} then shared_list s = r0
      else \<exists>p sh. shared_list s = r0 @ [(p, sh)] \<and> p \<notin> fst ` set r0 \<and> kref sh = card H
             \<and> (\<exists>j<N. dev sh = devs j) \<and> (\<forall>i\<in>H. shared (bindings s i) = Some p))"

text \<open>
  The mapping array after \<^verbatim>\<open>cougar_fix_g6_mapping\<close> has run on the initial array with
  parameter \<open>g6\<close>. \<^verbatim>\<open>cougar_fix_g6_mapping\<close> runs exactly in the attaches of the
  keyboard interface that return 0 (\<open>keyboard_attached\<close>); \<open>last_fix\<close> follows a
  sequence of calls and yields the value the parameter had when it last ran, \<open>g\<close>
  if it did not run at all. \<open>parameter_written\<close> tells whether a sequence writes
  the parameter. The invariant of the globals: before the first run the array is
  the initial one and no shared object is enabled; afterwards the array is the
  fixed one for the parameter of the last run.
\<close>

definition cougar_mapping_fixed :: "int \<Rightarrow> mapping" where
  "cougar_mapping_fixed g6 =
     (COUGAR_KEY_G6, if g6 \<noteq> 0 then KEY_SPACE else KEY_F18) # tl cougar_mapping_init"

fun keyboard_attached :: "call \<Rightarrow> driver \<Rightarrow> bool" where
  "keyboard_attached (Call_probe env hdev) drv =
     (usage hdev = HID_GD_KEYBOARD \<and>
      (case cougar_probe env hdev drv of
         Inl f \<Rightarrow> False
       | Inr res \<Rightarrow> probe_ret res = 0))"
| "keyboard_attached (Call_remove drvdata) drv = False"
| "keyboard_attached (Call_remove_shared_data cougar) drv = False"
| "keyboard_attached (Call_set_g6_is_space v) drv = False"

fun last_fix :: "call list \<Rightarrow> driver \<Rightarrow> int option \<Rightarrow> int option" where
  "last_fix [] drv g = g"
| "last_fix (c # cs) drv g =
     (case do_call c drv of
        Inl f \<Rightarrow> g
      | Inr drv' \<Rightarrow>
          last_fix cs drv' (if keyboard_attached c drv then Some (cougar_g6_is_space drv) else g))"

fun parameter_written :: "call list \<Rightarrow> bool" where
  "parameter_written [] = False"
| "parameter_written (Call_set_g6_is_space v # cs) = True"
| "parameter_written (c # cs) = parameter_written cs"

definition any_enabled :: "registry \<Rightarrow> bool" where
  "any_enabled reg = list_ex (\<lambda>(p, sh). enabled sh) reg"

definition mapping_inv :: "int option \<Rightarrow> driver \<Rightarrow> bool" where
  "mapping_inv g drv =
     (case g of
        None \<Rightarrow> cougar_mapping drv = cougar_mapping_init \<and> \<not> any_enabled (cougar_udev_list drv)
      | Some v \<Rightarrow> cougar_mapping drv = cougar_mapping_fixed v)"

text \<open>
  Example data: the keyboard and the vendor interface of one keyboard, an interface
  of another device, and a kernel that lets every step of a probe succeed, with
  \<open>p\<close> the address \<^verbatim>\<open>kzalloc\<close> would return.
\<close>

definition keyboard_dev :: hid_device where
  "keyboard_dev = \<lparr>phys = ''usb-1/input0'', phys_ptr = 0xFFFF888012340040,
     usage = HID_GD_KEYBOARD, inputs = [\<lparr>registered = True, hidinput_input = Some 5\<rparr>]\<rparr>"

definition vendor_dev :: hid_device where
  "vendor_dev = \<lparr>phys = ''usb-1/input1'', phys_ptr = 0xFFFF888012348040,
     usage = COUGAR_VENDOR_USAGE, inputs = []\<rparr>"

definition other_dev :: hid_device where
  "other_dev = \<lparr>phys = ''usb-2/input0'', phys_ptr = 0xFFFF888012350040,
     usage = HID_GD_KEYBOARD, inputs = []\<rparr>"

definition env_ok :: "shared_ptr \<Rightarrow> probe_env" where
  "env_ok p = \<lparr>devm_kzalloc_ok = True, hid_parse_ret = 0, hid_hw_start_ret = 0,
     kzalloc_ret = Some p, devm_add_action_ret = 0, hid_hw_open_ret = 0\<rparr>"

section \<open>Properties of the report descriptor fixup\<close>

lemma update_115_116_idem:
  "xs[115 := a, 116 := b, 115 := a, 116 := b] = xs[115 := a, 116 := b]"
proof -
  have "xs[115 := a, 116 := b, 115 := a] = xs[115 := a, 115 := a, 116 := b]"
    by (rule list_update_swap) simp
  then show ?thesis by simp
qed

lemma fixup_cases:
  "cougar_report_fixup mx rdesc rsize = Some (r1, e1) \<Longrightarrow>
     r1 = rdesc \<or>
     (116 < length rdesc \<and> rdesc ! 2 = 0x09 \<and> rdesc ! 3 = 0x02
      \<and> r1 = rdesc[115 := clamp_lo mx, 116 := clamp_hi mx])"
  by (auto simp: cougar_report_fixup_def byte_at_def split: option.splits if_splits)

lemma fixup_twice:
  assumes "cougar_report_fixup mx rdesc rsize = Some (r1, e1)"
  shows "\<exists>e2. cougar_report_fixup mx r1 rsize' = Some (r1, e2)"
proof -
  from fixup_cases [OF assms] show ?thesis
  proof
    assume "r1 = rdesc"
    with assms have "cougar_report_fixup mx r1 rsize = Some (r1, e1)" by simp
    then show ?thesis
      by (auto simp: cougar_report_fixup_def byte_at_def split: option.splits if_splits)
  next
    assume "116 < length rdesc \<and> rdesc ! 2 = 0x09 \<and> rdesc ! 3 = 0x02
      \<and> r1 = rdesc[115 := clamp_lo mx, 116 := clamp_hi mx]"
    then have "116 < length r1" "r1 ! 2 = 0x09" "r1 ! 3 = 0x02"
      "r1 ! 115 = clamp_lo mx" "r1 ! 116 = clamp_hi mx"
      "r1[115 := clamp_lo mx, 116 := clamp_hi mx] = r1"
      by (simp_all add: update_115_116_idem)
    then show ?thesis
      by (simp add: cougar_report_fixup_def byte_at_def)
  qed
qed

text \<open>The two bytes written read back as \<open>mx - 1\<close> when that fits 16 bits.\<close>

lemma usage_count_clamp:
  assumes "0 < mx" "mx \<le> 65536"
  shows "usage_count (clamp_lo mx) (clamp_hi mx) = mx - 1"
proof -
  define a where "a = mx - 1"
  have a: "0 \<le> a" "a < 2 ^ 16" using assms by (simp_all add: a_def)
  have tb: "take_bit 16 a = a" using a by (simp add: take_bit_int_eq_self)
  have m: "(0xff::int) = mask 8" by (simp add: mask_eq_exp_minus_1)
  have lo: "uint (word_of_int (a AND 0xff) :: u8) = take_bit 8 a"
    unfolding m by (simp add: uint_word_of_int_eq flip: take_bit_eq_mask)
  have hi: "uint (word_of_int (drop_bit 8 a) :: u8) = take_bit 8 (drop_bit 8 a)"
    by (simp add: uint_word_of_int_eq)
  have "take_bit 8 a OR push_bit 8 (take_bit 8 (drop_bit 8 a)) = take_bit 16 a"
    by (rule bit_eqI) (auto simp: bit_simps)
  then show ?thesis
    by (simp add: usage_count_def clamp_lo_def clamp_hi_def lo hi tb flip: a_def)
qed

lemma fixup_over_limit:
  assumes "117 \<le> length rdesc" "rdesc ! 2 = 0x09" "rdesc ! 3 = 0x02"
    "mx \<le> usage_count (rdesc ! 115) (rdesc ! 116)"
  shows "cougar_report_fixup mx rdesc rsize =
           Some (rdesc[115 := clamp_lo mx, 116 := clamp_hi mx],
                 [Hid_info ''usage count exceeds max: fixing up report descriptor'' []])"
  using assms by (simp add: cougar_report_fixup_def byte_at_def)

lemma fixup_below:
  "117 \<le> length rdesc \<Longrightarrow> usage_count (rdesc ! 115) (rdesc ! 116) < mx \<Longrightarrow>
     cougar_report_fixup mx rdesc rsize = Some (rdesc, [])"
  by (auto simp: cougar_report_fixup_def byte_at_def split: option.splits if_splits)

text \<open>
  C7. The fixup is idempotent. A descriptor of at least 117 bytes whose usage count
  (bytes 115 and 116, little endian) is below the maximum comes back byte for byte,
  with nothing logged. Whenever the fixup returns, applying it to its result returns
  that result again. On an over-limit descriptor, with a maximum between 1 and 65536
  (the kernel's is 12288), the count of the result reads \<open>mx - 1\<close> and a second
  application changes and logs nothing.
\<close>

theorem report_fixup_idempotent:
  "(117 \<le> length rdesc \<and> usage_count (rdesc ! 115) (rdesc ! 116) < mx
      \<longrightarrow> cougar_report_fixup mx rdesc rsize = Some (rdesc, []))
   \<and> (cougar_report_fixup mx rdesc rsize = Some (r1, e1)
      \<longrightarrow> (\<exists>e2. cougar_report_fixup mx r1 rsize' = Some (r1, e2)))
   \<and> (117 \<le> length rdesc \<and> rdesc ! 2 = 0x09 \<and> rdesc ! 3 = 0x02
        \<and> mx \<le> usage_count (rdesc ! 115) (rdesc ! 116) \<and> 0 < mx \<and> mx \<le> 65536
      \<longrightarrow> (\<exists>r e. cougar_report_fixup mx rdesc rsize = Some (r, e)
            \<and> usage_count (r ! 115) (r ! 116) = mx - 1
            \<and> cougar_report_fixup mx r rsize' = Some (r, [])))"
proof (intro conjI impI)
  assume "117 \<le> length rdesc \<and> usage_count (rdesc ! 115) (rdesc ! 116) < mx"
  then show "cougar_report_fixup mx rdesc rsize = Some (rdesc, [])"
    by (simp add: fixup_below)
next
  assume "cougar_report_fixup mx rdesc rsize = Some (r1, e1)"
  then show "\<exists>e2. cougar_report_fixup mx r1 rsize' = Some (r1, e2)"
    by (rule fixup_twice)
next
  assume a: "117 \<le> length rdesc \<and> rdesc ! 2 = 0x09 \<and> rdesc ! 3 = 0x02
        \<and> mx \<le> usage_count (rdesc ! 115) (rdesc ! 116) \<and> 0 < mx \<and> mx \<le> 65536"
  let ?r = "rdesc[115 := clamp_lo mx, 116 := clamp_hi mx]"
  from a have 1: "cougar_report_fixup mx rdesc rsize =
      Some (?r, [Hid_info ''usage count exceeds max: fixing up report descriptor'' []])"
    by (simp add: fixup_over_limit)
  from a have 2: "usage_count (?r ! 115) (?r ! 116) = mx - 1"
    by (simp add: usage_count_clamp)
  from a 2 have 3: "cougar_report_fixup mx ?r rsize' = Some (?r, [])"
    by (intro fixup_below) simp_all
  from 1 2 3 show "\<exists>r e. cougar_report_fixup mx rdesc rsize = Some (r, e)
            \<and> usage_count (r ! 115) (r ! 116) = mx - 1
            \<and> cougar_report_fixup mx r rsize' = Some (r, [])"
    by blast
qed

theorem report_fixup_idempotent_witness:
  "cougar_report_fixup 12288 ([5, 1, 9, 2] @ replicate 111 0 @ [0xff, 0x2f]) 117
     = Some ([5, 1, 9, 2] @ replicate 111 0 @ [0xff, 0x2f], [])
   \<and> (\<exists>r e. cougar_report_fixup 12288 ([5, 1, 9, 2] @ replicate 111 0 @ [0xff, 0xff]) 117
                = Some (r, e)
         \<and> usage_count (r ! 115) (r ! 116) = 12287
         \<and> cougar_report_fixup 12288 r 117 = Some (r, []))"
  using
    report_fixup_idempotent [of "[5, 1, 9, 2] @ replicate 111 0 @ [0xff, 0x2f]" 12288 117
      "[5, 1, 9, 2] @ replicate 111 0 @ [0xff, 0x2f]" "[]" 117]
    report_fixup_idempotent [of "[5, 1, 9, 2] @ replicate 111 0 @ [0xff, 0xff]" 12288 117
      "[5, 1, 9, 2] @ replicate 111 0 @ [0xff, 0x2f]"
      "[Hid_info ''usage count exceeds max: fixing up report descriptor'' []]" 117]
  by (simp add: nth_append usage_count_def)

text \<open>
  C10, as stated, at a descriptor of three bytes whose byte 2 is not 0x09: it is
  shorter than 117 bytes and the fixup reads nothing outside it.
\<close>

theorem report_fixup_short_descriptor_total:
  "\<not> (cougar_report_fixup 12288 [0, 0, 0] 3 \<noteq> None \<longleftrightarrow> 117 \<le> length [0 :: u8, 0, 0])"
  by (simp add: cougar_report_fixup_def byte_at_def)

text \<open>
  C10, amended. The fixup never consults the size. It reads byte 2; byte 3 only if
  byte 2 is 0x09; bytes 115 and 116 only if byte 3 is 0x02 as well. So it stays
  inside the buffer exactly when the buffer has 3 bytes, 4 if byte 2 is 0x09, and
  117 if byte 3 is 0x02 too; 117 bytes are enough for every descriptor.
\<close>

theorem report_fixup_reads_in_bounds_iff:
  "(cougar_report_fixup mx rdesc rsize \<noteq> None \<longleftrightarrow>
      (2 < length rdesc \<and>
       (rdesc ! 2 = 0x09 \<longrightarrow> 3 < length rdesc \<and>
         (rdesc ! 3 = 0x02 \<longrightarrow> 116 < length rdesc))))
   \<and> (117 \<le> length rdesc \<longrightarrow> cougar_report_fixup mx rdesc rsize \<noteq> None)
   \<and> cougar_report_fixup mx rdesc rsize = cougar_report_fixup mx rdesc rsize'"
  by (auto simp: cougar_report_fixup_def byte_at_def split: option.splits if_splits)

theorem report_fixup_reads_in_bounds_iff_witness:
  "cougar_report_fixup 12288 [5, 1, 9, 7] 4 \<noteq> None
   \<and> cougar_report_fixup 12288 [5, 1, 9, 2] 4 = None
   \<and> cougar_report_fixup 12288 ([5, 1, 9, 2] @ replicate 113 0) 117 \<noteq> None"
  using report_fixup_reads_in_bounds_iff [of 12288 "[5, 1, 9, 7]" 4 4]
    report_fixup_reads_in_bounds_iff [of 12288 "[5, 1, 9, 2]" 4 4]
    report_fixup_reads_in_bounds_iff [of 12288 "[5, 1, 9, 2] @ replicate 113 0" 117 117]
  by (simp add: cougar_report_fixup_def byte_at_def)

section \<open>Properties of the path comparison and of binding\<close>

lemma strncmp_eq_0_iff: "strncmp a b n = 0 \<longleftrightarrow> take n a = take n b"
  by (induction a b n rule: strncmp.induct) auto

lemma strrchr_less: "strrchr s c = Some i \<Longrightarrow> i < length s"
  by (induction s arbitrary: i) (auto split: option.splits if_splits)

lemma ptr_diff_int_offset:
  assumes "i < 2 ^ 31"
  shows "ptr_diff_int (p + of_nat i) p = int i"
proof -
  have "(ucast (of_nat i :: 64 word) :: 32 word) = of_nat i"
    using assms by (simp add: unsigned_of_nat take_bit_nat_eq_self)
  moreover have "sint (of_nat i :: 32 word) = int i"
    using assms by (simp add: signed_of_nat signed_take_bit_int_eq_self)
  ultimately show ?thesis by (simp add: ptr_diff_int_def)
qed

lemma ptr_diff_int_path:
  assumes "strrchr (phys hdev) c = Some i" "length (phys hdev) < 64"
  shows "ptr_diff_int (strrchr_ptr hdev c) (phys_ptr hdev) = int i"
proof -
  from assms have "i < 2 ^ 31" by (auto dest!: strrchr_less)
  with assms(1) show ?thesis by (simp add: strrchr_ptr_def ptr_diff_int_offset)
qed

lemma compare_same_prefix:
  assumes "path_prefix a n pre" "path_prefix b n pre"
  shows "compare_device_paths a b CHR ''/''"
  using assms by (simp add: compare_device_paths_def path_prefix_def ptr_diff_int_path strncmp_eq_0_iff)

lemma compare_prefix_only:
  assumes "path_prefix a n pre" "path_prefix b n pre"
  shows "compare_device_paths a e CHR ''/'' = compare_device_paths b e CHR ''/''"
proof -
  from assms have na: "ptr_diff_int (strrchr_ptr a CHR ''/'') (phys_ptr a) = int n"
    and nb: "ptr_diff_int (strrchr_ptr b CHR ''/'') (phys_ptr b) = int n"
    by (simp_all add: path_prefix_def ptr_diff_int_path)
  from assms have ta: "take n (phys a) = take n (phys b)"
    by (simp add: path_prefix_def)
  show ?thesis
    unfolding compare_device_paths_def Let_def na nb strncmp_eq_0_iff nat_int ta
    by (rule refl)
qed

lemma compare_separator_first:
  assumes "strrchr (phys a) CHR ''/'' = Some 0 \<or> strrchr (phys b) CHR ''/'' = Some 0"
  shows "\<not> compare_device_paths a b CHR ''/''"
  using assms by (auto simp: compare_device_paths_def strrchr_ptr_def ptr_diff_int_def Let_def)

lemma get_shared_data_None_iff:
  "cougar_get_shared_data hdev reg = None \<longleftrightarrow> no_match hdev reg"
  by (induction reg) (auto simp: no_match_def split: option.splits if_splits)

lemma get_shared_data_append_match:
  "no_match hdev reg \<Longrightarrow> compare_device_paths hdev (dev sh) CHR ''/'' \<Longrightarrow>
     cougar_get_shared_data hdev (reg @ [(p, sh)]) = Some (p, reg @ [(p, sh\<lparr>kref := kref sh + 1\<rparr>)])"
  by (induction reg) (auto simp: no_match_def)

lemma bind_fresh:
  "no_match hdev reg \<Longrightarrow>
     cougar_bind_shared_data (Some p) 0 hdev c reg =
       Inr \<lparr>bind_error = 0, bind_cougar = c\<lparr>shared := Some p\<rparr>,
            bind_registry = reg @ [(p, \<lparr>kref = 1, enabled = False, dev = hdev, input = None\<rparr>)],
            bind_action = True\<rparr>"
  by (simp add: cougar_bind_shared_data_def get_shared_data_None_iff [THEN iffD2])

lemma bind_existing:
  "no_match hdev reg \<Longrightarrow> compare_device_paths hdev (dev sh) CHR ''/'' \<Longrightarrow>
     cougar_bind_shared_data kz 0 hdev c (reg @ [(p, sh)]) =
       Inr \<lparr>bind_error = 0, bind_cougar = c\<lparr>shared := Some p\<rparr>,
            bind_registry = reg @ [(p, sh\<lparr>kref := kref sh + 1\<rparr>)],
            bind_action = True\<rparr>"
  by (simp add: cougar_bind_shared_data_def get_shared_data_append_match)

lemma no_match_prefix:
  "path_prefix a n pre \<Longrightarrow> path_prefix b n pre \<Longrightarrow> no_match a reg = no_match b reg"
  by (simp add: no_match_def compare_prefix_only [of a n pre b])

lemma map_of_append_fresh:
  "p \<notin> fst ` set reg \<Longrightarrow> map_of (reg @ [(p, sh)]) p = Some sh"
  by (simp add: map_add_def map_of_eq_None_iff [THEN iffD2])

lemma same_prefix_shares_entry:
  assumes "path_prefix a n pre" "path_prefix b n pre" "no_match a reg" "p \<notin> fst ` set reg"
  shows "\<exists>b1 b2. cougar_bind_shared_data (Some p) 0 a ca reg = Inr b1
           \<and> cougar_bind_shared_data kz 0 b cb (bind_registry b1) = Inr b2
           \<and> bind_error b1 = 0 \<and> bind_error b2 = 0
           \<and> shared (bind_cougar b1) = Some p \<and> shared (bind_cougar b2) = Some p
           \<and> map_option kref (map_of (bind_registry b2) p) = Some 2"
proof -
  let ?sh = "\<lparr>kref = 1, enabled = False, dev = a, input = None\<rparr>"
  have nb: "no_match b reg" using assms no_match_prefix by blast
  have cmp: "compare_device_paths b (dev ?sh) CHR ''/''"
    using assms compare_same_prefix by simp
  note 1 = bind_fresh [OF assms(3), of p ca]
  note 2 = bind_existing [OF nb cmp, of kz cb p]
  from map_of_append_fresh [OF assms(4), of "?sh\<lparr>kref := kref ?sh + 1\<rparr>"]
  have 3: "map_option kref (map_of (reg @ [(p, ?sh\<lparr>kref := kref ?sh + 1\<rparr>)]) p) = Some 2"
    by simp
  show ?thesis
    unfolding 1 using 2 3 by simp
qed

text \<open>The example devices: the two interfaces of one keyboard match, the other device does not.\<close>

lemma path_keyboard: "path_prefix keyboard_dev 5 ''usb-1''"
  by (simp add: path_prefix_def keyboard_dev_def)
lemma path_vendor: "path_prefix vendor_dev 5 ''usb-1''"
  by (simp add: path_prefix_def vendor_dev_def)
lemma path_other: "path_prefix other_dev 5 ''usb-2''"
  by (simp add: path_prefix_def other_dev_def)

lemma cmp1: "compare_device_paths vendor_dev keyboard_dev CHR ''/''"
  using path_vendor path_keyboard by (rule compare_same_prefix)

lemma cmp2: "\<not> compare_device_paths keyboard_dev other_dev CHR ''/''"
  by (simp add: compare_device_paths_def [of keyboard_dev] ptr_diff_int_path [of _ _ 5] strncmp_eq_0_iff
        path_keyboard [unfolded path_prefix_def] path_other [unfolded path_prefix_def])

text \<open>
  C1, at two devices whose path \<^verbatim>\<open>usb\<close> has no separator. \<^verbatim>\<open>strrchr\<close> returns NULL for
  both, and the code subtracts the address of \<^verbatim>\<open>phys\<close> from it without a test. With
  the arrays at 0xFFFF8880FFFFFC18 and 0xFFFF8881FFFFFC18 both differences are
  1000 as an \<^verbatim>\<open>int\<close>, the test \<^verbatim>\<open>n1 <= 0\<close> lets them pass, \<^verbatim>\<open>strncmp\<close> finds the
  paths equal, and the second interface is bound to the shared data of the first
  instead of to a fresh one. (That paths with equal prefixes share one object
  counted twice, and that a separator at index 0 never matches, are
  \<open>same_prefix_shares_entry\<close> and \<open>compare_separator_first\<close> above.)
\<close>

theorem absent_separator_matches:
  "strrchr ''usb'' CHR ''/'' = None
   \<and> compare_device_paths
     \<lparr>phys = ''usb'', phys_ptr = 0xFFFF8880FFFFFC18, usage = 0xff00ff00, inputs = []\<rparr>
     \<lparr>phys = ''usb'', phys_ptr = 0xFFFF8881FFFFFC18, usage = 0x00010006, inputs = []\<rparr> CHR ''/''
   \<and> cougar_bind_shared_data (Some 2) 0
       \<lparr>phys = ''usb'', phys_ptr = 0xFFFF8880FFFFFC18, usage = 0xff00ff00, inputs = []\<rparr>
       \<lparr>special_intf = True, shared = None\<rparr>
       [(1, \<lparr>kref = 1, enabled = False,
             dev = \<lparr>phys = ''usb'', phys_ptr = 0xFFFF8881FFFFFC18, usage = 0x00010006, inputs = []\<rparr>,
             input = None\<rparr>)]
     = Inr \<lparr>bind_error = 0, bind_cougar = \<lparr>special_intf = True, shared = Some 1\<rparr>,
         bind_registry = [(1, \<lparr>kref = 2, enabled = False,
             dev = \<lparr>phys = ''usb'', phys_ptr = 0xFFFF8881FFFFFC18, usage = 0x00010006, inputs = []\<rparr>,
             input = None\<rparr>)],
         bind_action = True\<rparr>"
  by (simp add: cougar_bind_shared_data_def compare_device_paths_def strrchr_ptr_def ptr_diff_int_def Let_def strncmp_eq_0_iff)

theorem absent_separator_matches_witness:
  "\<exists>b. cougar_bind_shared_data (Some 2) 0
       \<lparr>phys = ''usb'', phys_ptr = 0xFFFF8880FFFFFC18, usage = 0xff00ff00, inputs = []\<rparr>
       \<lparr>special_intf = True, shared = None\<rparr>
       [(1, \<lparr>kref = 1, enabled = False,
             dev = \<lparr>phys = ''usb'', phys_ptr = 0xFFFF8881FFFFFC18, usage = 0x00010006, inputs = []\<rparr>,
             input = None\<rparr>)] = Inr b
     \<and> shared (bind_cougar b) = Some 1
     \<and> map_option kref (map_of (bind_registry b) 1) = Some 2"
  using absent_separator_matches by simp

section \<open>Reference counting over schedules\<close>

lemma release_fresh:
  "p \<notin> fst ` set r \<Longrightarrow> cougar_release_shared_data p r = r"
  by (induction r) (auto simp: cougar_release_shared_data_def)

lemma set_kref_fresh:
  "p \<notin> fst ` set r \<Longrightarrow> set_kref p k r = r"
  by (induction r) (auto simp: set_kref_def)

lemma kref_put_last:
  assumes "p \<notin> fst ` set r0" "0 < kref sh"
  shows "kref_put p (r0 @ [(p, sh)]) =
           Inr (if kref sh = 1 then r0 else r0 @ [(p, sh\<lparr>kref := kref sh - 1\<rparr>)])"
proof -
  have m: "map_of (r0 @ [(p, sh)]) p = Some sh"
    using assms(1) by (rule map_of_append_fresh)
  have r: "cougar_release_shared_data p (r0 @ [(p, sh)]) = r0"
    using release_fresh [OF assms(1)] by (simp add: cougar_release_shared_data_def)
  have k: "set_kref p k (r0 @ [(p, sh)]) = r0 @ [(p, sh\<lparr>kref := k\<rparr>)]" for k
    using set_kref_fresh [OF assms(1), of k] by (simp add: set_kref_def)
  show ?thesis
    unfolding kref_put_def m using assms(2) by (auto simp: r k)
qed

lemma step_acquire:
  assumes grp: "\<forall>i<N. path_prefix (devs i) n pre" and nm: "no_match (devs 0) r0" and N: "0 < N"
    and inv: "group_inv devs N r0 H s" and i: "i < N" "i \<notin> H" and p: "p \<notin> fst ` set r0"
  shows "\<exists>s'. exec_event devs (Acquire i p) s = Inr s' \<and> group_inv devs N r0 (insert i H) s'"
proof -
  have nmi: "no_match (devs i) r0"
    using grp nm N i(1) no_match_prefix [of "devs 0" n pre "devs i" r0] by simp
  have fin: "finite H" using inv by (auto simp: group_inv_def intro: finite_subset)
  show ?thesis
  proof (cases "H = {}")
    case True
    with inv have l: "shared_list s = r0" by (simp add: group_inv_def)
    let ?s' = "\<lparr>bindings = (bindings s)(i := (bindings s i)\<lparr>shared := Some p\<rparr>),
                shared_list = r0 @ [(p, \<lparr>kref = 1, enabled = False, dev = devs i, input = None\<rparr>)]\<rparr>"
    have e: "exec_event devs (Acquire i p) s = Inr ?s'"
      by (simp add: l bind_fresh [OF nmi])
    have "group_inv devs N r0 (insert i H) ?s'"
      using inv True i p by (auto simp: group_inv_def)
    with e show ?thesis by blast
  next
    case False
    with inv obtain q sh where l: "shared_list s = r0 @ [(q, sh)]" and q: "q \<notin> fst ` set r0"
      and k: "kref sh = card H" and d: "\<exists>j<N. dev sh = devs j"
      and h: "\<forall>i\<in>H. shared (bindings s i) = Some q"
      by (auto simp: group_inv_def)
    from d grp i(1) have cmp: "compare_device_paths (devs i) (dev sh) CHR ''/''"
      by (auto intro: compare_same_prefix)
    let ?s' = "\<lparr>bindings = (bindings s)(i := (bindings s i)\<lparr>shared := Some q\<rparr>),
                shared_list = r0 @ [(q, sh\<lparr>kref := kref sh + 1\<rparr>)]\<rparr>"
    have e: "exec_event devs (Acquire i p) s = Inr ?s'"
      by (simp add: l bind_existing [OF nmi cmp])
    have "group_inv devs N r0 (insert i H) ?s'"
      using inv False i q k d h fin by (auto simp: group_inv_def)
    with e show ?thesis by blast
  qed
qed

lemma step_release:
  assumes inv: "group_inv devs N r0 H s" and i: "i < N" "i \<in> H"
  shows "\<exists>s'. exec_event devs (Release i) s = Inr s' \<and> group_inv devs N r0 (H - {i}) s'"
proof -
  have fin: "finite H" using inv by (auto simp: group_inv_def intro: finite_subset)
  from i have ne: "H \<noteq> {}" by auto
  with inv obtain q sh where l: "shared_list s = r0 @ [(q, sh)]" and q: "q \<notin> fst ` set r0"
    and k: "kref sh = card H" and d: "\<exists>j<N. dev sh = devs j"
    and h: "\<forall>i\<in>H. shared (bindings s i) = Some q"
    by (auto simp: group_inv_def)
  from fin ne have c: "0 < card H" by (simp add: card_gt_0_iff)
  from h i have b: "shared (bindings s i) = Some q" by simp
  let ?r = "if kref sh = 1 then r0 else r0 @ [(q, sh\<lparr>kref := kref sh - 1\<rparr>)]"
  let ?s' = "\<lparr>bindings = (bindings s)(i := (bindings s i)\<lparr>shared := None\<rparr>), shared_list = ?r\<rparr>"
  have e: "exec_event devs (Release i) s = Inr ?s'"
    using c k by (simp add: cougar_remove_shared_data_def b l kref_put_last [OF q])
  have "group_inv devs N r0 (H - {i}) ?s'"
  proof (cases "card H = 1")
    case True
    with fin i have "H - {i} = {}" by (auto simp: card_1_singleton_iff)
    with True inv k i show ?thesis by (auto simp: group_inv_def)
  next
    case False
    with c have c2: "2 \<le> card H" by simp
    from fin i have cd: "card (H - {i}) = card H - 1"
      by (simp add: card_Diff_singleton)
    with c2 have "card (H - {i}) \<noteq> 0" by simp
    then have "H - {i} \<noteq> {}" by (metis card.empty)
    with cd False inv k i q d h show ?thesis by (auto simp: group_inv_def)
  qed
  with e show ?thesis by blast
qed

lemma run_events:
  assumes grp: "\<forall>i<N. path_prefix (devs i) n pre" and nm: "no_match (devs 0) r0" and N: "0 < N"
  shows "group_inv devs N r0 H s \<Longrightarrow> in_order H es \<Longrightarrow> \<forall>e\<in>set es. iface e < N \<Longrightarrow>
     allocations es \<inter> fst ` set r0 = {} \<Longrightarrow>
     \<exists>s'. exec_events devs es s = Inr s' \<and> group_inv devs N r0 (held_after H es) s'"
proof (induction es arbitrary: H s)
  case Nil
  then show ?case by simp
next
  case (Cons e es)
  show ?case
  proof (cases e)
    case (Acquire i p)
    with Cons.prems have "i < N" "i \<notin> H" "p \<notin> fst ` set r0" by auto
    from step_acquire [OF grp nm N Cons.prems(1) this]
    obtain s1 where s1: "exec_event devs (Acquire i p) s = Inr s1"
      "group_inv devs N r0 (insert i H) s1" by blast
    from Cons.prems Acquire have "in_order (insert i H) es" "\<forall>e\<in>set es. iface e < N"
      "allocations es \<inter> fst ` set r0 = {}" by auto
    from Cons.IH [OF s1(2) this] s1(1) Acquire show ?thesis by simp
  next
    case (Release i)
    with Cons.prems have "i < N" "i \<in> H" by auto
    from step_release [OF Cons.prems(1) this]
    obtain s1 where s1: "exec_event devs (Release i) s = Inr s1"
      "group_inv devs N r0 (H - {i}) s1" by blast
    from Cons.prems Release have "in_order (H - {i}) es" "\<forall>e\<in>set es. iface e < N"
      "allocations es \<inter> fst ` set r0 = {}" by auto
    from Cons.IH [OF s1(2) this] s1(1) Release show ?thesis by simp
  qed
qed

lemma held_count:
  "finite H \<Longrightarrow> in_order H es \<Longrightarrow> card (held_after H es) + releases es = card H + acquires es"
proof (induction es arbitrary: H)
  case Nil
  then show ?case by simp
next
  case (Cons e es)
  show ?case
  proof (cases e)
    case (Acquire i p)
    with Cons.prems Cons.IH [of "insert i H"] show ?thesis by simp
  next
    case (Release i)
    with Cons.prems have "0 < card H" by (auto simp: card_gt_0_iff)
    with Release Cons.prems Cons.IH [of "H - {i}"] show ?thesis by (simp add: card_Diff_singleton)
  qed
qed

lemma held_after_finite: "finite H \<Longrightarrow> finite (held_after H es)"
  by (induction H es rule: held_after.induct) auto

text \<open>
  C2. \<open>N\<close> interfaces whose paths have the same prefix acquire and release in any
  order in which every release follows an acquire of the same interface, from a
  list \<open>r0\<close> that holds nothing of their device. No step faults. After \<open>N\<close>
  acquires and \<open>N\<close> releases the list is \<open>r0\<close> again: the shared object is off
  the list and freed. After \<open>N\<close> acquires and \<open>N - 1\<close> releases the list is
  \<open>r0\<close> and one object, whose counter is 1.
\<close>

theorem refcount_acquire_release:
  assumes "0 < N" "\<forall>i<N. path_prefix (devs i) n pre" "no_match (devs 0) r0"
    "\<forall>e\<in>set es. iface e < N" "in_order {} es" "allocations es \<inter> fst ` set r0 = {}"
    "\<forall>i<N. shared (bnd i) = None" "acquires es = N"
  shows "\<exists>s'. exec_events devs es \<lparr>bindings = bnd, shared_list = r0\<rparr> = Inr s' \<and>
     (releases es = N \<longrightarrow> shared_list s' = r0) \<and>
     (releases es + 1 = N \<longrightarrow>
        (\<exists>p sh. shared_list s' = r0 @ [(p, sh)] \<and> kref sh = 1
           \<and> (\<exists>i<N. shared (bindings s' i) = Some p)))"
proof -
  let ?s = "\<lparr>bindings = bnd, shared_list = r0\<rparr>"
  have "group_inv devs N r0 {} ?s" using assms(7) by (simp add: group_inv_def)
  from run_events [OF assms(2,3,1) this assms(5,4,6)]
  obtain s' where s': "exec_events devs es ?s = Inr s'" "group_inv devs N r0 (held_after {} es) s'"
    by blast
  from held_count [OF _ assms(5)] assms(8)
  have c: "card (held_after {} es) + releases es = N" by simp
  have f: "finite (held_after {} es)" by (simp add: held_after_finite)
  have 1: "shared_list s' = r0" if "releases es = N"
    using that c f s'(2) by (simp add: group_inv_def)
  have 2: "\<exists>p sh. shared_list s' = r0 @ [(p, sh)] \<and> kref sh = 1
      \<and> (\<exists>i<N. shared (bindings s' i) = Some p)" if "releases es + 1 = N"
  proof -
    from that c have c1: "card (held_after {} es) = 1" by simp
    then obtain i where i: "i \<in> held_after {} es" by (auto simp: card_1_singleton_iff)
    with s'(2) have iN: "i < N" by (auto simp: group_inv_def)
    from i have "held_after {} es \<noteq> {}" by auto
    with s'(2) c1 obtain p sh where "shared_list s' = r0 @ [(p, sh)]" "kref sh = 1"
      "\<forall>i\<in>held_after {} es. shared (bindings s' i) = Some p"
      by (auto simp: group_inv_def)
    with i iN show ?thesis by blast
  qed
  from s'(1) 1 2 show ?thesis by blast
qed

theorem refcount_acquire_release_witness:
  "(\<exists>s'. exec_events (\<lambda>i. if i = 0 then keyboard_dev else vendor_dev)
            [Acquire 0 11, Acquire 1 12, Release 0, Release 1]
            \<lparr>bindings = (\<lambda>i. \<lparr>special_intf = (i = 1), shared = None\<rparr>),
              shared_list = [(3, \<lparr>kref = 1, enabled = False, dev = other_dev, input = None\<rparr>)]\<rparr> = Inr s'
         \<and> shared_list s' = [(3, \<lparr>kref = 1, enabled = False, dev = other_dev, input = None\<rparr>)])
   \<and> (\<exists>s' p sh. exec_events (\<lambda>i. if i = 0 then keyboard_dev else vendor_dev)
            [Acquire 1 11, Release 1, Acquire 0 12]
            \<lparr>bindings = (\<lambda>i. \<lparr>special_intf = (i = 1), shared = None\<rparr>),
              shared_list = [(3, \<lparr>kref = 1, enabled = False, dev = other_dev, input = None\<rparr>)]\<rparr> = Inr s'
         \<and> shared_list s' = [(3, \<lparr>kref = 1, enabled = False, dev = other_dev, input = None\<rparr>)] @ [(p, sh)]
         \<and> kref sh = 1)"
proof -
  let ?devs = "\<lambda>i::nat. if i = 0 then keyboard_dev else vendor_dev"
  let ?r0 = "[(3::nat, \<lparr>kref = 1, enabled = False, dev = other_dev, input = None\<rparr>)]"
  let ?bnd = "\<lambda>i::nat. \<lparr>special_intf = (i = 1), shared = None\<rparr>"
  have g: "\<forall>i<2. path_prefix (?devs i) 5 ''usb-1''"
    by (simp add: path_keyboard path_vendor)
  have nm: "no_match (?devs 0) ?r0"
    by (simp add: no_match_def cmp2)
  have b: "\<forall>i<2. shared (?bnd i) = None" by simp
  from refcount_acquire_release [of 2 ?devs 5 "''usb-1''" ?r0
      "[Acquire 0 11, Acquire 1 12, Release 0, Release 1]" ?bnd, OF _ g nm _ _ _ b]
  have 1: "\<exists>s'. exec_events ?devs [Acquire 0 11, Acquire 1 12, Release 0, Release 1]
            \<lparr>bindings = ?bnd, shared_list = ?r0\<rparr> = Inr s' \<and> shared_list s' = ?r0"
    by simp
  from refcount_acquire_release [of 2 ?devs 5 "''usb-1''" ?r0
      "[Acquire 1 11, Release 1, Acquire 0 12]" ?bnd, OF _ g nm _ _ _ b]
  have 2: "\<exists>s' p sh. exec_events ?devs [Acquire 1 11, Release 1, Acquire 0 12]
            \<lparr>bindings = ?bnd, shared_list = ?r0\<rparr> = Inr s' \<and> shared_list s' = ?r0 @ [(p, sh)]
         \<and> kref sh = 1"
    by simp blast
  from 1 2 show ?thesis by blast
qed

section \<open>Release\<close>

text \<open>
  C4. After \<^verbatim>\<open>cougar_remove_shared_data\<close> has returned, the \<^verbatim>\<open>struct cougar\<close> holds no
  pointer, and a second call on it leaves it and the whole list as they are: no
  counter is touched.
\<close>

theorem release_idempotent:
  "cougar_remove_shared_data cougar reg = Inr (cougar', reg') \<Longrightarrow>
     shared cougar' = None \<and> cougar_remove_shared_data cougar' reg' = Inr (cougar', reg')"
  by (auto simp: cougar_remove_shared_data_def split: option.splits sum.splits)

theorem release_idempotent_witness:
  "cougar_remove_shared_data \<lparr>special_intf = True, shared = Some 7\<rparr>
      [(7, \<lparr>kref = 1, enabled = False,
            dev = \<lparr>phys = ''usb-1/input0'', phys_ptr = 0x1000, usage = 0xff00ff00, inputs = []\<rparr>,
            input = None\<rparr>),
       (9, \<lparr>kref = 2, enabled = False,
            dev = \<lparr>phys = ''usb-2/input0'', phys_ptr = 0x2000, usage = 0xff00ff00, inputs = []\<rparr>,
            input = None\<rparr>)]
     = Inr (\<lparr>special_intf = True, shared = None\<rparr>,
       [(9, \<lparr>kref = 2, enabled = False,
            dev = \<lparr>phys = ''usb-2/input0'', phys_ptr = 0x2000, usage = 0xff00ff00, inputs = []\<rparr>,
            input = None\<rparr>)])
   \<and> cougar_remove_shared_data \<lparr>special_intf = True, shared = None\<rparr>
       [(9, \<lparr>kref = 2, enabled = False,
            dev = \<lparr>phys = ''usb-2/input0'', phys_ptr = 0x2000, usage = 0xff00ff00, inputs = []\<rparr>,
            input = None\<rparr>)]
     = Inr (\<lparr>special_intf = True, shared = None\<rparr>,
       [(9, \<lparr>kref = 2, enabled = False,
            dev = \<lparr>phys = ''usb-2/input0'', phys_ptr = 0x2000, usage = 0xff00ff00, inputs = []\<rparr>,
            input = None\<rparr>)])"
  using release_idempotent [of "\<lparr>special_intf = True, shared = Some 7\<rparr>"
      "[(7, \<lparr>kref = 1, enabled = False,
            dev = \<lparr>phys = ''usb-1/input0'', phys_ptr = 0x1000, usage = 0xff00ff00, inputs = []\<rparr>,
            input = None\<rparr>),
       (9, \<lparr>kref = 2, enabled = False,
            dev = \<lparr>phys = ''usb-2/input0'', phys_ptr = 0x2000, usage = 0xff00ff00, inputs = []\<rparr>,
            input = None\<rparr>)]"
      "\<lparr>special_intf = True, shared = None\<rparr>"
      "[(9, \<lparr>kref = 2, enabled = False,
            dev = \<lparr>phys = ''usb-2/input0'', phys_ptr = 0x2000, usage = 0xff00ff00, inputs = []\<rparr>,
            input = None\<rparr>)]"]
  by (simp add: cougar_remove_shared_data_def kref_put_def cougar_release_shared_data_def)

section \<open>A failed attach of the vendor interface\<close>

lemma get_shared_data_split:
  "cougar_get_shared_data hdev reg = Some (p, reg') \<Longrightarrow>
     \<exists>pre sh post. reg = pre @ (p, sh) # post \<and> reg' = pre @ (p, sh\<lparr>kref := kref sh + 1\<rparr>) # post"
proof (induction reg arbitrary: reg')
  case Nil
  then show ?case by simp
next
  case (Cons a reg)
  obtain q sh where a: "a = (q, sh)" by (cases a)
  show ?case
  proof (cases "compare_device_paths hdev (dev sh) CHR ''/''")
    case True
    with Cons.prems a have "p = q" "reg' = (q, sh\<lparr>kref := kref sh + 1\<rparr>) # reg" by auto
    with a show ?thesis by (intro exI [of _ "[]"]) auto
  next
    case False
    with Cons.prems a obtain r where r: "cougar_get_shared_data hdev reg = Some (p, r)" "reg' = (q, sh) # r"
      by (auto split: option.splits)
    from Cons.IH [OF r(1)] obtain pre sh' post where
      "reg = pre @ (p, sh') # post" "r = pre @ (p, sh'\<lparr>kref := kref sh' + 1\<rparr>) # post" by blast
    with a r(2) show ?thesis by (intro exI [of _ "(q, sh) # pre"]) auto
  qed
qed

lemma map_of_middle:
  "p \<notin> fst ` set pre \<Longrightarrow> map_of (pre @ (p, sh) # post) p = Some sh"
  by (simp add: map_add_def map_of_eq_None_iff [THEN iffD2])

lemma set_kref_middle:
  "p \<notin> fst ` set pre \<Longrightarrow> p \<notin> fst ` set post \<Longrightarrow>
     set_kref p k (pre @ (p, sh) # post) = pre @ (p, sh\<lparr>kref := k\<rparr>) # post"
  using set_kref_fresh [of p pre k] set_kref_fresh [of p post k]
  by (simp add: set_kref_def)

lemma get_then_put:
  assumes "cougar_get_shared_data hdev reg = Some (p, reg')" "distinct (map fst reg)"
    "\<forall>(q, sh)\<in>set reg. 0 < kref sh"
  shows "kref_put p reg' = Inr reg
    \<and> (\<exists>sh. map_of reg p = Some sh \<and> map_option kref (map_of reg' p) = Some (kref sh + 1))"
proof -
  from get_shared_data_split [OF assms(1)] obtain pre sh post where
    r: "reg = pre @ (p, sh) # post" and r': "reg' = pre @ (p, sh\<lparr>kref := kref sh + 1\<rparr>) # post"
    by blast
  from assms(2) r have f: "p \<notin> fst ` set pre" "p \<notin> fst ` set post" by auto
  from assms(3) r have k: "0 < kref sh" by auto
  have m: "map_of reg' p = Some (sh\<lparr>kref := kref sh + 1\<rparr>)"
    unfolding r' using f(1) by (rule map_of_middle)
  have m0: "map_of reg p = Some sh"
    unfolding r using f(1) by (rule map_of_middle)
  have "set_kref p (kref sh) reg' = reg"
    unfolding r r' using set_kref_middle [OF f, of "kref sh" "sh\<lparr>kref := kref sh + 1\<rparr>"] by simp
  with k m m0 show ?thesis by (simp add: kref_put_def)
qed

lemma bind_then_put:
  assumes "distinct (map fst reg)" "\<forall>(q, sh)\<in>set reg. 0 < kref sh"
    "cougar_get_shared_data hdev reg = None \<longrightarrow> (\<exists>q. kz = Some q \<and> q \<notin> fst ` set reg)"
  shows "\<exists>p reg'. cougar_bind_shared_data kz 0 hdev c reg =
            Inr \<lparr>bind_error = 0, bind_cougar = c\<lparr>shared := Some p\<rparr>, bind_registry = reg',
                 bind_action = True\<rparr>
          \<and> kref_put p reg' = Inr reg
          \<and> map_option kref (map_of reg' p) =
              Some (case map_of reg p of None \<Rightarrow> 1 | Some sh \<Rightarrow> kref sh + 1)"
proof (cases "cougar_get_shared_data hdev reg")
  case None
  with assms(3) obtain q where q: "kz = Some q" "q \<notin> fst ` set reg" by blast
  let ?new = "\<lparr>kref = 1, enabled = False, dev = hdev, input = None\<rparr>"
  from None have nm: "no_match hdev reg" by (simp add: get_shared_data_None_iff)
  have 1: "kref_put q (reg @ [(q, ?new)]) = Inr reg"
    using kref_put_last [OF q(2), of ?new] by simp
  have 2: "map_of (reg @ [(q, ?new)]) q = Some ?new"
    using q(2) by (rule map_of_append_fresh)
  have 3: "map_of reg q = None" using q(2) by (simp add: map_of_eq_None_iff)
  from 2 3 have 4: "map_option kref (map_of (reg @ [(q, ?new)]) q) =
      Some (case map_of reg q of None \<Rightarrow> 1 | Some sh \<Rightarrow> kref sh + 1)"
    by simp
  show ?thesis
    unfolding q(1) bind_fresh [OF nm] using 1 4 by blast
next
  case (Some a)
  obtain p reg' where a: "a = (p, reg')" by (cases a)
  from get_then_put [OF Some [unfolded a] assms(1,2)] Some a show ?thesis
    by (auto simp: cougar_bind_shared_data_def)
qed

lemma usage_constants_differ: "COUGAR_VENDOR_USAGE \<noteq> HID_GD_KEYBOARD"
  by (simp add: COUGAR_VENDOR_USAGE_def HID_GD_KEYBOARD_def)

text \<open>
  C3. The vendor interface is attached to a list with distinct objects and positive
  counters; allocation, parse, start and bind succeed and \<^verbatim>\<open>hid_hw_open\<close> fails.
  \<^verbatim>\<open>cougar_probe\<close> returns that error with the reference still held (the counter
  is one more than before, or 1 on a fresh object) and the managed action
  registered; the probe as a whole, with the managed resources released, leaves
  the globals as they were before the attach, so every counter has its old value
  and an object created by this attach is gone.
\<close>

theorem attach_rollback:
  assumes "distinct (map fst (cougar_udev_list drv))"
    "\<forall>(q, sh)\<in>set (cougar_udev_list drv). 0 < kref sh"
    "usage hdev = COUGAR_VENDOR_USAGE" "devm_kzalloc_ok env" "hid_parse_ret env = 0"
    "hid_hw_start_ret env = 0" "devm_add_action_ret env = 0" "hid_hw_open_ret env \<noteq> 0"
    "cougar_get_shared_data hdev (cougar_udev_list drv) = None \<longrightarrow>
       (\<exists>q. kzalloc_ret env = Some q \<and> q \<notin> fst ` set (cougar_udev_list drv))"
  shows "(\<exists>res p. cougar_probe env hdev drv = Inr res \<and> probe_ret res = hid_hw_open_ret env
            \<and> probe_action res \<and> map_option shared (probe_cougar res) = Some (Some p)
            \<and> map_option kref (map_of (cougar_udev_list (probe_driver res)) p) =
                Some (case map_of (cougar_udev_list drv) p of None \<Rightarrow> 1 | Some sh \<Rightarrow> kref sh + 1))
       \<and> (\<exists>res. really_probe env hdev drv = Inr res \<and> probe_ret res = hid_hw_open_ret env
            \<and> \<not> probe_action res \<and> probe_driver res = drv)"
proof -
  let ?c = "\<lparr>special_intf = True, shared = None\<rparr>"
  from bind_then_put [OF assms(1,2,9), of ?c] obtain p reg' where
    b: "cougar_bind_shared_data (kzalloc_ret env) 0 hdev ?c (cougar_udev_list drv) =
            Inr \<lparr>bind_error = 0, bind_cougar = ?c\<lparr>shared := Some p\<rparr>, bind_registry = reg',
                 bind_action = True\<rparr>"
    and put: "kref_put p reg' = Inr (cougar_udev_list drv)"
    and k: "map_option kref (map_of reg' p) =
              Some (case map_of (cougar_udev_list drv) p of None \<Rightarrow> 1 | Some sh \<Rightarrow> kref sh + 1)"
    by blast
  let ?res = "\<lparr>probe_ret = hid_hw_open_ret env, probe_cougar = Some (?c\<lparr>shared := Some p\<rparr>),
      probe_drvdata = False, probe_action = True,
      probe_driver = drv\<lparr>cougar_udev_list := reg'\<rparr>,
      probe_effects = [Hid_hw_start HID_CONNECT_HIDRAW, Hid_hw_open, Hid_hw_stop]\<rparr>"
  have pr: "cougar_probe env hdev drv = Inr ?res"
    using assms(3-8) by (simp add: cougar_probe_def b usage_constants_differ)
  have rp: "really_probe env hdev drv =
      Inr (?res\<lparr>probe_cougar := None, probe_action := False, probe_driver := drv\<rparr>)"
    using assms(8) by (simp add: really_probe_def pr devres_release_all_def cougar_remove_shared_data_def put)
  from pr k have "\<exists>res p. cougar_probe env hdev drv = Inr res \<and> probe_ret res = hid_hw_open_ret env
            \<and> probe_action res \<and> map_option shared (probe_cougar res) = Some (Some p)
            \<and> map_option kref (map_of (cougar_udev_list (probe_driver res)) p) =
                Some (case map_of (cougar_udev_list drv) p of None \<Rightarrow> 1 | Some sh \<Rightarrow> kref sh + 1)"
    by (intro exI [of _ ?res] exI [of _ p]) simp
  moreover from rp have "\<exists>res. really_probe env hdev drv = Inr res \<and> probe_ret res = hid_hw_open_ret env
            \<and> \<not> probe_action res \<and> probe_driver res = drv"
    by simp
  ultimately show ?thesis by blast
qed

theorem attach_rollback_witness:
  "(\<exists>res. really_probe ((env_ok 9)\<lparr>hid_hw_open_ret := - 5\<rparr>) vendor_dev
       \<lparr>cougar_g6_is_space = 1, cougar_mapping = cougar_mapping_init,
        cougar_udev_list = [(4, \<lparr>kref = 1, enabled = True, dev = keyboard_dev, input = Some 5\<rparr>)]\<rparr>
       = Inr res
     \<and> probe_ret res = - 5 \<and> \<not> probe_action res
     \<and> probe_driver res = \<lparr>cougar_g6_is_space = 1, cougar_mapping = cougar_mapping_init,
        cougar_udev_list = [(4, \<lparr>kref = 1, enabled = True, dev = keyboard_dev, input = Some 5\<rparr>)]\<rparr>)
   \<and> (\<exists>res. really_probe ((env_ok 9)\<lparr>hid_hw_open_ret := - 5\<rparr>) vendor_dev (module_loaded 1)
       = Inr res
     \<and> probe_ret res = - 5 \<and> \<not> probe_action res \<and> probe_driver res = module_loaded 1)"
proof -
  let ?env = "(env_ok 9)\<lparr>hid_hw_open_ret := - 5\<rparr>"
  let ?drv = "\<lparr>cougar_g6_is_space = 1, cougar_mapping = cougar_mapping_init,
      cougar_udev_list = [(4, \<lparr>kref = 1, enabled = True, dev = keyboard_dev, input = Some 5\<rparr>)]\<rparr>"
  have e: "devm_kzalloc_ok ?env" "hid_parse_ret ?env = 0" "hid_hw_start_ret ?env = 0"
    "devm_add_action_ret ?env = 0" "hid_hw_open_ret ?env \<noteq> 0" "kzalloc_ret ?env = Some 9"
    by (simp_all add: env_ok_def)
  have u: "usage vendor_dev = COUGAR_VENDOR_USAGE" by (simp add: vendor_dev_def)
  from attach_rollback [of ?drv vendor_dev ?env, OF _ _ u e(1-5)] e(6)
  have 1: "\<exists>res. really_probe ?env vendor_dev ?drv = Inr res \<and> probe_ret res = - 5
            \<and> \<not> probe_action res \<and> probe_driver res = ?drv"
    by simp
  from attach_rollback [of "module_loaded 1" vendor_dev ?env, OF _ _ u e(1-5)] e(6)
  have 2: "\<exists>res. really_probe ?env vendor_dev (module_loaded 1) = Inr res \<and> probe_ret res = - 5
            \<and> \<not> probe_action res \<and> probe_driver res = module_loaded 1"
    by (simp add: module_loaded_def)
  from 1 2 show ?thesis by blast
qed

section \<open>Raw events\<close>

lemma raw_event_gate:
  "\<not> special_intf cougar \<or> shared cougar = None \<or>
     (\<exists>p sh. shared cougar = Some p \<and> map_of (cougar_udev_list drv) p = Some sh
        \<and> (input sh = None \<or> \<not> enabled sh)) \<Longrightarrow>
   cougar_raw_event (Some cougar) drv data sz = Inr (0, [])"
  by (auto simp: cougar_raw_event_def split: option.splits)

lemma map_of_set_enabled:
  "map_of (set_enabled p b reg) q =
     (if q = p then map_option (\<lambda>sh. sh\<lparr>enabled := b\<rparr>) (map_of reg q) else map_of reg q)"
  by (induction reg) (auto simp: set_enabled_def)

lemma raw_event_after_remove:
  assumes "cougar_remove (Some c') reg = Inr (reg', es)" "shared c' = Some p" "shared cougar = Some p"
  shows "cougar_raw_event (Some cougar) (drv\<lparr>cougar_udev_list := reg'\<rparr>) data sz = Inr (0, [])"
proof -
  from assms obtain sh where sh: "map_of reg p = Some sh" and reg': "reg' = set_enabled p False reg"
    by (auto simp: cougar_remove_def split: option.splits)
  then have "map_of reg' p = Some (sh\<lparr>enabled := False\<rparr>)"
    by (simp add: map_of_set_enabled)
  with assms(3) show ?thesis
    by (intro raw_event_gate) simp
qed

lemma raw_event_before_set_sink:
  assumes "cougar_get_shared_data hdev reg = None" "p \<notin> fst ` set reg"
    "cougar_bind_shared_data (Some p) 0 hdev c reg = Inr b"
  shows "cougar_raw_event (Some (bind_cougar b)) (drv\<lparr>cougar_udev_list := bind_registry b\<rparr>) data sz
           = Inr (0, [])"
proof -
  from assms have b: "shared (bind_cougar b) = Some p"
    "bind_registry b = reg @ [(p, \<lparr>kref = 1, enabled = False, dev = hdev, input = None\<rparr>)]"
    by (auto simp: cougar_bind_shared_data_def)
  from b(2) map_of_append_fresh [OF assms(2)]
  have "map_of (bind_registry b) p = Some \<lparr>kref = 1, enabled = False, dev = hdev, input = None\<rparr>"
    by simp
  with b(1) show ?thesis
    by (intro raw_event_gate) simp
qed

text \<open>
  C5. \<^verbatim>\<open>cougar_raw_event\<close> returns 0 and emits nothing, whatever the payload and
  without reading it, when the interface is not the vendor interface, or has no
  shared data, or the shared data has no input device or is not enabled. In
  particular on shared data that bind has just created (no keyboard interface has
  recorded its input device yet), and on shared data that \<^verbatim>\<open>cougar_remove\<close> of any
  interface bound to it has disabled.
\<close>

theorem raw_event_gated:
  "((\<not> special_intf cougar \<or> shared cougar = None \<or>
      (\<exists>p sh. shared cougar = Some p \<and> map_of (cougar_udev_list drv) p = Some sh
         \<and> (input sh = None \<or> \<not> enabled sh)))
     \<longrightarrow> cougar_raw_event (Some cougar) drv data sz = Inr (0, []))
   \<and> (cougar_get_shared_data hdev reg = None \<and> q \<notin> fst ` set reg
       \<and> cougar_bind_shared_data (Some q) 0 hdev c reg = Inr b
     \<longrightarrow> cougar_raw_event (Some (bind_cougar b)) (drv\<lparr>cougar_udev_list := bind_registry b\<rparr>) data sz
           = Inr (0, []))
   \<and> (cougar_remove (Some c') reg = Inr (reg', es) \<and> shared c' = Some q' \<and> shared cougar = Some q'
     \<longrightarrow> cougar_raw_event (Some cougar) (drv\<lparr>cougar_udev_list := reg'\<rparr>) data sz = Inr (0, []))"
  using raw_event_gate [of cougar drv data sz]
    raw_event_before_set_sink [of hdev reg q c b drv data sz]
    raw_event_after_remove [of c' reg reg' es q' cougar drv data sz]
  by blast


theorem raw_event_gated_witness:
  "cougar_raw_event (Some \<lparr>special_intf = False, shared = Some 1\<rparr>)
      \<lparr>cougar_g6_is_space = 1, cougar_mapping = cougar_mapping_init,
       cougar_udev_list = [(1, \<lparr>kref = 2, enabled = True, dev = vendor_dev, input = Some 5\<rparr>)]\<rparr>
      [1, 0x78, 1] 3 = Inr (0, [])
   \<and> cougar_raw_event (Some \<lparr>special_intf = True, shared = Some 1\<rparr>)
      ((module_loaded 1)\<lparr>cougar_udev_list :=
         [(1, \<lparr>kref = 1, enabled = False, dev = vendor_dev, input = None\<rparr>)]\<rparr>)
      [1, 0x78, 1] 3 = Inr (0, [])
   \<and> cougar_raw_event (Some \<lparr>special_intf = True, shared = Some 1\<rparr>)
      ((module_loaded 1)\<lparr>cougar_udev_list :=
         [(1, \<lparr>kref = 2, enabled = False, dev = vendor_dev, input = Some 5\<rparr>)]\<rparr>)
      [] 0 = Inr (0, [])"
proof -
  let ?on = "[(1::nat, \<lparr>kref = 2, enabled = True, dev = vendor_dev, input = Some 5\<rparr>)]"
  let ?off = "[(1::nat, \<lparr>kref = 2, enabled = False, dev = vendor_dev, input = Some 5\<rparr>)]"
  let ?new = "[(1::nat, \<lparr>kref = 1, enabled = False, dev = vendor_dev, input = None\<rparr>)]"
  let ?v = "\<lparr>special_intf = True, shared = Some (1::nat)\<rparr>"
  let ?k = "\<lparr>special_intf = False, shared = Some (1::nat)\<rparr>"
  let ?drv = "\<lparr>cougar_g6_is_space = 1, cougar_mapping = cougar_mapping_init, cougar_udev_list = ?on\<rparr>"
  have b: "cougar_bind_shared_data (Some 1) 0 vendor_dev \<lparr>special_intf = True, shared = None\<rparr> [] =
      Inr \<lparr>bind_error = 0, bind_cougar = ?v, bind_registry = ?new, bind_action = True\<rparr>"
    by (simp add: cougar_bind_shared_data_def)
  have r: "cougar_remove (Some ?k) ?on = Inr (?off, [Hid_hw_stop])"
    by (simp add: cougar_remove_def set_enabled_def)
  have 1: "cougar_raw_event (Some ?k) ?drv [1, 0x78, 1] 3 = Inr (0, [])"
    using raw_event_gated [where cougar = ?k and drv = ?drv and data = "[1, 0x78, 1]" and sz = 3,
        THEN conjunct1]
    by simp
  have 2: "cougar_raw_event (Some ?v) ((module_loaded 1)\<lparr>cougar_udev_list := ?new\<rparr>) [1, 0x78, 1] 3
      = Inr (0, [])"
    using raw_event_gated [where hdev = vendor_dev and reg = "[]" and q = 1
        and c = "\<lparr>special_intf = True, shared = None\<rparr>"
        and b = "\<lparr>bind_error = 0, bind_cougar = ?v, bind_registry = ?new, bind_action = True\<rparr>"
        and drv = "module_loaded 1" and data = "[1, 0x78, 1]" and sz = 3,
        THEN conjunct2, THEN conjunct1] b
    by simp
  have 3: "cougar_raw_event (Some ?v) ((module_loaded 1)\<lparr>cougar_udev_list := ?off\<rparr>) [] 0
      = Inr (0, [])"
    using raw_event_gated [where c' = ?k and reg = ?on and reg' = ?off and es = "[Hid_hw_stop]"
        and q' = 1 and cougar = ?v and drv = "module_loaded 1" and data = "[]" and sz = 0,
        THEN conjunct2, THEN conjunct2] r
    by simp
  from 1 2 3 show ?thesis by blast
qed

section \<open>The mapping at the time of a raw event\<close>

lemma fix_g6_init:
  "cougar_fix_g6_mapping g6 cougar_mapping_init =
     Inr (cougar_mapping_fixed g6, [Hid_info ''G6 mapped to %s'' [Str (if g6 \<noteq> 0 then ''space'' else ''F18'')]])"
  by (simp add: cougar_mapping_init_def cougar_mapping_fixed_def COUGAR_KEY_G6_def)

lemma fix_g6_fixed:
  "cougar_fix_g6_mapping g6 (cougar_mapping_fixed v) =
     Inr (cougar_mapping_fixed g6, [Hid_info ''G6 mapped to %s'' [Str (if g6 \<noteq> 0 then ''space'' else ''F18'')]])"
  by (simp add: cougar_mapping_init_def cougar_mapping_fixed_def COUGAR_KEY_G6_def)

lemma enabled_get_shared_data:
  "cougar_get_shared_data hdev reg = Some (p, reg') \<Longrightarrow> any_enabled reg' = any_enabled reg"
  by (induction reg arbitrary: reg') (auto simp: any_enabled_def split: if_splits option.splits)

lemma enabled_release: "any_enabled (cougar_release_shared_data p reg) \<Longrightarrow> any_enabled reg"
  by (auto simp: any_enabled_def cougar_release_shared_data_def list_ex_iff)

lemma enabled_set_kref: "any_enabled (set_kref p k reg) = any_enabled reg"
  by (induction reg) (auto simp: any_enabled_def set_kref_def split: if_splits)

lemma enabled_kref_put: "kref_put p reg = Inr reg' \<Longrightarrow> any_enabled reg' \<Longrightarrow> any_enabled reg"
  by (auto simp: kref_put_def enabled_set_kref split: option.splits if_splits dest: enabled_release)

lemma enabled_remove_shared_data:
  "cougar_remove_shared_data c reg = Inr (c', reg') \<Longrightarrow> any_enabled reg' \<Longrightarrow> any_enabled reg"
  by (auto simp: cougar_remove_shared_data_def split: option.splits sum.splits dest: enabled_kref_put)

lemma enabled_append_new:
  "any_enabled (reg @ [(p, \<lparr>kref = k, enabled = False, dev = d, input = i\<rparr>)]) = any_enabled reg"
  by (simp add: any_enabled_def)

lemma enabled_bind:
  assumes "cougar_bind_shared_data kz da hdev c reg = Inr b" "any_enabled (bind_registry b)"
  shows "any_enabled reg"
proof -
  have tail: "any_enabled reg'"
    if "(if da \<noteq> 0
         then (case cougar_remove_shared_data (c\<lparr>shared := Some p\<rparr>) reg' of
                 Inl f \<Rightarrow> Inl f
               | Inr (cougar', reg'') \<Rightarrow>
                   Inr \<lparr>bind_error = da, bind_cougar = cougar', bind_registry = reg'',
                        bind_action = False\<rparr>)
         else Inr \<lparr>bind_error = 0, bind_cougar = c\<lparr>shared := Some p\<rparr>,
                   bind_registry = reg', bind_action = True\<rparr>) = Inr b" for p reg'
  proof (cases "da = 0")
    case True
    with that assms(2) show ?thesis by auto
  next
    case False
    with that obtain c' where
      "cougar_remove_shared_data (c\<lparr>shared := Some p\<rparr>) reg' = Inr (c', bind_registry b)"
      by (auto split: sum.splits)
    then show ?thesis using assms(2) by (rule enabled_remove_shared_data)
  qed
  show ?thesis
  proof (cases "cougar_get_shared_data hdev reg")
    case None
    show ?thesis
    proof (cases kz)
      case N: None
      with None assms show ?thesis by (auto simp: cougar_bind_shared_data_def)
    next
      case (Some p)
      with None assms(1) have "any_enabled (reg @ [(p, \<lparr>kref = 1, enabled = False, dev = hdev, input = None\<rparr>)])"
        by (intro tail [of p]) (simp add: cougar_bind_shared_data_def split: if_splits)
      then show ?thesis by (simp only: enabled_append_new)
    qed
  next
    case (Some a)
    obtain p reg' where a: "a = (p, reg')" by (cases a)
    with Some assms(1) have "any_enabled reg'"
      by (intro tail [of p]) (simp add: cougar_bind_shared_data_def split: if_splits)
    with Some a show ?thesis by (simp add: enabled_get_shared_data)
  qed
qed

lemma enabled_set_enabled_False: "any_enabled (set_enabled p False reg) \<Longrightarrow> any_enabled reg"
  by (induction reg) (auto simp: any_enabled_def set_enabled_def split: if_splits)

lemma enabled_remove:
  "cougar_remove drvdata reg = Inr (reg', es) \<Longrightarrow> any_enabled reg' \<Longrightarrow> any_enabled reg"
  by (auto simp: cougar_remove_def split: option.splits sum.splits dest: enabled_set_enabled_False)

lemma probe_driver_cases:
  assumes "cougar_probe env hdev drv = Inr res"
  shows "cougar_g6_is_space (probe_driver res) = cougar_g6_is_space drv \<and>
     ((cougar_mapping (probe_driver res) = cougar_mapping drv
          \<and> (any_enabled (cougar_udev_list (probe_driver res)) \<longrightarrow> any_enabled (cougar_udev_list drv)))
       \<or> (usage hdev = HID_GD_KEYBOARD \<and> probe_ret res = 0))"
  using assms
  by (auto simp: cougar_probe_def Let_def split: if_splits sum.splits option.splits dest: enabled_bind)

lemma probe_keyboard_fixes:
  assumes "cougar_probe env hdev drv = Inr res" "usage hdev = HID_GD_KEYBOARD" "probe_ret res = 0"
  shows "\<exists>es. cougar_fix_g6_mapping (cougar_g6_is_space drv) (cougar_mapping drv)
              = Inr (cougar_mapping (probe_driver res), es) \<and> set es \<subseteq> set (probe_effects res)"
  using assms
  by (auto simp: cougar_probe_def Let_def ENOMEM_def split: if_splits sum.splits option.splits)


lemma fix_g6_known:
  assumes "cougar_mapping drv = cougar_mapping_init \<or> cougar_mapping drv = cougar_mapping_fixed v"
    "cougar_fix_g6_mapping g6 (cougar_mapping drv) = Inr (tbl, es)"
  shows "tbl = cougar_mapping_fixed g6"
  using assms by (auto simp: fix_g6_init fix_g6_fixed)

lemma mapping_inv_known:
  "mapping_inv g drv \<Longrightarrow>
     cougar_mapping drv = cougar_mapping_init \<or> cougar_mapping drv = cougar_mapping_fixed (the g)"
  by (cases g) (auto simp: mapping_inv_def)

lemma mapping_inv_weaken:
  assumes "mapping_inv g drv" "cougar_mapping drv' = cougar_mapping drv"
    "any_enabled (cougar_udev_list drv') \<longrightarrow> any_enabled (cougar_udev_list drv)"
  shows "mapping_inv g drv'"
  using assms by (cases g) (auto simp: mapping_inv_def)

lemma do_call_mapping_inv:
  assumes "do_call c drv = Inr drv'" "mapping_inv g drv"
  shows "mapping_inv (if keyboard_attached c drv then Some (cougar_g6_is_space drv) else g) drv'"
proof (cases c)
  case (Call_probe env hdev)
  with assms(1) obtain res where res: "cougar_probe env hdev drv = Inr res" "drv' = probe_driver res"
    by (auto split: sum.splits)
  show ?thesis
  proof (cases "usage hdev = HID_GD_KEYBOARD \<and> probe_ret res = 0")
    case True
    with probe_keyboard_fixes [OF res(1)] obtain es where
      "cougar_fix_g6_mapping (cougar_g6_is_space drv) (cougar_mapping drv) = Inr (cougar_mapping drv', es)"
      using res(2) by auto
    with mapping_inv_known [OF assms(2)]
    have "cougar_mapping drv' = cougar_mapping_fixed (cougar_g6_is_space drv)"
      by (rule fix_g6_known)
    with True Call_probe res(1) show ?thesis by (simp add: mapping_inv_def)
  next
    case False
    with probe_driver_cases [OF res(1)] res(2)
    have "cougar_mapping drv' = cougar_mapping drv"
      "any_enabled (cougar_udev_list drv') \<longrightarrow> any_enabled (cougar_udev_list drv)"
      by auto
    with assms(2) have "mapping_inv g drv'" by (rule mapping_inv_weaken)
    with False Call_probe res(1) show ?thesis by auto
  qed
next
  case (Call_remove drvdata)
  with assms(1) have "cougar_mapping drv' = cougar_mapping drv"
    "any_enabled (cougar_udev_list drv') \<longrightarrow> any_enabled (cougar_udev_list drv)"
    by (auto split: sum.splits dest: enabled_remove)
  with assms(2) have "mapping_inv g drv'" by (rule mapping_inv_weaken)
  with Call_remove show ?thesis by simp
next
  case (Call_remove_shared_data cougar)
  with assms(1) have "cougar_mapping drv' = cougar_mapping drv"
    "any_enabled (cougar_udev_list drv') \<longrightarrow> any_enabled (cougar_udev_list drv)"
    by (auto split: sum.splits dest: enabled_remove_shared_data)
  with assms(2) have "mapping_inv g drv'" by (rule mapping_inv_weaken)
  with Call_remove_shared_data show ?thesis by simp
next
  case (Call_set_g6_is_space v)
  with assms(1) have "cougar_mapping drv' = cougar_mapping drv"
    "any_enabled (cougar_udev_list drv') \<longrightarrow> any_enabled (cougar_udev_list drv)"
    by auto
  with assms(2) have "mapping_inv g drv'" by (rule mapping_inv_weaken)
  with Call_set_g6_is_space show ?thesis by simp
qed

lemma do_calls_mapping_inv:
  "do_calls cs drv = Inr drv' \<Longrightarrow> mapping_inv g drv \<Longrightarrow> mapping_inv (last_fix cs drv g) drv'"
proof (induction cs arbitrary: drv g)
  case Nil
  then show ?case by simp
next
  case (Cons c cs)
  from Cons.prems(1) obtain d where d: "do_call c drv = Inr d" "do_calls cs d = Inr drv'"
    by (auto split: sum.splits)
  from do_call_mapping_inv [OF d(1) Cons.prems(2)] Cons.IH [OF d(2)] d(1)
  show ?case by simp
qed

lemma module_loaded_inv: "mapping_inv None (module_loaded g6)"
  by (simp add: mapping_inv_def module_loaded_def any_enabled_def)

lemma do_call_keeps_parameter:
  assumes "do_call c drv = Inr drv'" "\<not> parameter_written (c # cs)"
  shows "cougar_g6_is_space drv' = cougar_g6_is_space drv \<and> \<not> parameter_written cs"
proof (cases c)
  case (Call_probe env hdev)
  with assms show ?thesis by (auto split: sum.splits dest: probe_driver_cases)
next
  case (Call_remove drvdata)
  with assms show ?thesis by (auto split: sum.splits)
next
  case (Call_remove_shared_data cougar)
  with assms show ?thesis by (auto split: sum.splits)
next
  case (Call_set_g6_is_space v)
  with assms show ?thesis by simp
qed

lemma last_fix_static:
  "do_calls cs drv = Inr drv' \<Longrightarrow> \<not> parameter_written cs \<Longrightarrow>
     cougar_g6_is_space drv' = cougar_g6_is_space drv \<and>
     (last_fix cs drv g = g \<or> last_fix cs drv g = Some (cougar_g6_is_space drv))"
proof (induction cs arbitrary: drv g)
  case Nil
  then show ?case by simp
next
  case (Cons c cs)
  from Cons.prems(1) obtain d where d: "do_call c drv = Inr d" "do_calls cs d = Inr drv'"
    by (auto split: sum.splits)
  from do_call_keeps_parameter [OF d(1) Cons.prems(2)]
  have k: "cougar_g6_is_space d = cougar_g6_is_space drv" "\<not> parameter_written cs" by simp_all
  from Cons.IH [OF d(2) k(2), of "if keyboard_attached c drv then Some (cougar_g6_is_space drv) else g"]
    k(1) d(1)
  show ?case by (auto split: if_splits)
qed

lemma reachable_enabled_fixed:
  assumes "do_calls cs (module_loaded cfg) = Inr drv" "map_of (cougar_udev_list drv) p = Some sh"
    "enabled sh"
  shows "\<exists>v. last_fix cs (module_loaded cfg) None = Some v
           \<and> cougar_mapping drv = cougar_mapping_fixed v
           \<and> (\<not> parameter_written cs \<longrightarrow> v = cfg \<and> cougar_g6_is_space drv = cfg)"
proof -
  from assms(2) have "(p, sh) \<in> set (cougar_udev_list drv)" by (rule map_of_SomeD)
  with assms(3) have e: "any_enabled (cougar_udev_list drv)"
    by (auto simp: any_enabled_def list_ex_iff)
  note inv = do_calls_mapping_inv [OF assms(1) module_loaded_inv]
  with e obtain v where v: "last_fix cs (module_loaded cfg) None = Some v"
    "cougar_mapping drv = cougar_mapping_fixed v"
    by (cases "last_fix cs (module_loaded cfg) None") (auto simp: mapping_inv_def)
  have "v = cfg \<and> cougar_g6_is_space drv = cfg" if "\<not> parameter_written cs"
    using last_fix_static [OF assms(1) that, of None] v(1) by (simp add: module_loaded_def)
  with v show ?thesis by blast
qed


lemma probe_vendor_first:
  "cougar_probe (env_ok 11) vendor_dev (module_loaded g6) =
     Inr \<lparr>probe_ret = 0, probe_cougar = Some \<lparr>special_intf = True, shared = Some 11\<rparr>,
          probe_drvdata = True, probe_action = True,
          probe_driver = (module_loaded g6)\<lparr>cougar_udev_list :=
            [(11, \<lparr>kref = 1, enabled = False, dev = vendor_dev, input = None\<rparr>)]\<rparr>,
          probe_effects = [Hid_hw_start HID_CONNECT_HIDRAW, Hid_hw_open]\<rparr>"
  by (simp add: cougar_probe_def env_ok_def module_loaded_def cougar_bind_shared_data_def
      usage_constants_differ vendor_dev_def)

lemma cmp3: "compare_device_paths keyboard_dev vendor_dev CHR ''/''"
  using path_keyboard path_vendor by (rule compare_same_prefix)

lemma probe_keyboard_second:
  "cougar_probe (env_ok 12) keyboard_dev
     ((module_loaded g6)\<lparr>cougar_udev_list :=
            [(11, \<lparr>kref = 1, enabled = False, dev = vendor_dev, input = None\<rparr>)]\<rparr>) =
     Inr \<lparr>probe_ret = 0, probe_cougar = Some \<lparr>special_intf = False, shared = Some 11\<rparr>,
          probe_drvdata = True, probe_action = True,
          probe_driver = \<lparr>cougar_g6_is_space = g6, cougar_mapping = cougar_mapping_fixed g6,
            cougar_udev_list = [(11, \<lparr>kref = 2, enabled = True, dev = vendor_dev, input = Some 5\<rparr>)]\<rparr>,
          probe_effects = [Hid_hw_start HID_CONNECT_DEFAULT,
            Hid_info ''G6 mapped to %s'' [Str (if g6 \<noteq> 0 then ''space'' else ''F18'')]]\<rparr>"
proof -
  have u: "usage keyboard_dev = HID_GD_KEYBOARD" "inputs keyboard_dev = [\<lparr>registered = True, hidinput_input = Some 5\<rparr>]"
    by (simp_all add: keyboard_dev_def)
  show ?thesis
    by (simp add: cougar_probe_def env_ok_def module_loaded_def cougar_bind_shared_data_def
      usage_constants_differ [symmetric] u cmp3 fix_g6_init set_enabled_def set_input_def)
qed

lemma both_attached:
  "do_calls [Call_probe (env_ok 11) vendor_dev, Call_probe (env_ok 12) keyboard_dev] (module_loaded g6) =
     Inr \<lparr>cougar_g6_is_space = g6, cougar_mapping = cougar_mapping_fixed g6,
          cougar_udev_list = [(11, \<lparr>kref = 2, enabled = True, dev = vendor_dev, input = Some 5\<rparr>)]\<rparr>"
  by (simp only: do_calls.simps do_call.simps probe_vendor_first probe_keyboard_second
      sum.case probe_result.select_convs)

lemma probe_vendor_first_fixed:
  "cougar_probe (env_ok 11) vendor_dev
     \<lparr>cougar_g6_is_space = g6, cougar_mapping = cougar_mapping_init, cougar_udev_list = []\<rparr> =
     Inr \<lparr>probe_ret = 0, probe_cougar = Some \<lparr>special_intf = True, shared = Some 11\<rparr>,
          probe_drvdata = True, probe_action = True,
          probe_driver = \<lparr>cougar_g6_is_space = g6, cougar_mapping = cougar_mapping_init,
            cougar_udev_list = [(11, \<lparr>kref = 1, enabled = False, dev = vendor_dev, input = None\<rparr>)]\<rparr>,
          probe_effects = [Hid_hw_start HID_CONNECT_HIDRAW, Hid_hw_open]\<rparr>"
  using probe_vendor_first [of g6] by (simp add: module_loaded_def)

lemma probe_keyboard_second_fixed:
  "cougar_probe (env_ok 12) keyboard_dev
     \<lparr>cougar_g6_is_space = g6, cougar_mapping = cougar_mapping_init,
      cougar_udev_list = [(11, \<lparr>kref = 1, enabled = False, dev = vendor_dev, input = None\<rparr>)]\<rparr> =
     Inr \<lparr>probe_ret = 0, probe_cougar = Some \<lparr>special_intf = False, shared = Some 11\<rparr>,
          probe_drvdata = True, probe_action = True,
          probe_driver = \<lparr>cougar_g6_is_space = g6, cougar_mapping = cougar_mapping_fixed g6,
            cougar_udev_list = [(11, \<lparr>kref = 2, enabled = True, dev = vendor_dev, input = Some 5\<rparr>)]\<rparr>,
          probe_effects = [Hid_hw_start HID_CONNECT_DEFAULT,
            Hid_info ''G6 mapped to %s'' [Str (if g6 \<noteq> 0 then ''space'' else ''F18'')]]\<rparr>"
  using probe_keyboard_second [of g6] by (simp add: module_loaded_def)

lemmas run_examples =
  do_calls.simps do_call.simps last_fix.simps keyboard_attached.simps sum.case
  probe_result.select_convs driver.select_convs driver.update_convs
  probe_vendor_first_fixed probe_keyboard_second_fixed

lemma usage_examples:
  "usage vendor_dev \<noteq> HID_GD_KEYBOARD" "usage keyboard_dev = HID_GD_KEYBOARD"
  by (simp_all add: vendor_dev_def keyboard_dev_def usage_constants_differ)

lemma write_then_attach:
  "do_calls [Call_probe (env_ok 11) vendor_dev, Call_set_g6_is_space 0,
       Call_probe (env_ok 12) keyboard_dev] (module_loaded 1) =
     Inr \<lparr>cougar_g6_is_space = 0, cougar_mapping = cougar_mapping_fixed 0,
          cougar_udev_list = [(11, \<lparr>kref = 2, enabled = True, dev = vendor_dev, input = Some 5\<rparr>)]\<rparr>"
  unfolding module_loaded_def by (simp only: run_examples)


lemma last_fix_write_then_attach:
  "last_fix [Call_probe (env_ok 11) vendor_dev, Call_set_g6_is_space 0,
       Call_probe (env_ok 12) keyboard_dev] (module_loaded 1) None = Some 0"
  unfolding module_loaded_def by (simp only: run_examples usage_examples simp_thms if_False if_True)




lemma raw_event_loop_terminated:
  "0 \<in> fst ` set tbl \<Longrightarrow> \<exists>es. raw_event_loop tbl inp code action = Inr (0, es)"
proof (induction tbl)
  case Nil
  then show ?case by simp
next
  case (Cons a tbl)
  obtain c k where a: "a = (c, k)" by (cases a)
  show ?case
  proof (cases "c = 0 \<or> code = c")
    case True
    with a show ?thesis by auto
  next
    case False
    with Cons.prems a have "0 \<in> fst ` set tbl" by auto
    from Cons.IH [OF this] False a show ?thesis by simp
  qed
qed

text \<open>
  C8, as stated, on the enabled vendor interface of the example keyboard with a
  payload of two bytes: the action is read at offset 2, outside the buffer.
\<close>

theorem raw_event_short_payload:
  "do_calls [Call_probe (env_ok 11) vendor_dev, Call_probe (env_ok 12) keyboard_dev] (module_loaded 1) =
     Inr \<lparr>cougar_g6_is_space = 1, cougar_mapping = cougar_mapping_fixed 1,
          cougar_udev_list = [(11, \<lparr>kref = 2, enabled = True, dev = vendor_dev, input = Some 5\<rparr>)]\<rparr>
   \<and> cougar_raw_event (Some \<lparr>special_intf = True, shared = Some 11\<rparr>)
     \<lparr>cougar_g6_is_space = 1, cougar_mapping = cougar_mapping_fixed 1,
      cougar_udev_list = [(11, \<lparr>kref = 2, enabled = True, dev = vendor_dev, input = Some 5\<rparr>)]\<rparr>
     [1, 0x78] 2 = Inl Out_Of_Bounds"
  unfolding both_attached
  by (simp add: cougar_raw_event_def byte_at_def COUGAR_FIELD_CODE_def COUGAR_FIELD_ACTION_def)

text \<open>
  C8, amended. On an enabled vendor interface with an input device, and a mapping
  array that ends in a row of zeros, the code and the action are read at offsets 1
  and 2 without any test of the size: a buffer of fewer than three bytes is read
  out of bounds; one of at least three bytes is translated from those two bytes
  and 0 is returned. The parameter \<^verbatim>\<open>size\<close> has no influence.
\<close>

theorem raw_event_unchecked_reads:
  assumes "special_intf cougar" "shared cougar = Some p"
    "map_of (cougar_udev_list drv) p = Some sh" "input sh = Some inp" "enabled sh"
    "0 \<in> fst ` set (cougar_mapping drv)"
  shows "(length data < 3 \<longrightarrow> cougar_raw_event (Some cougar) drv data sz = Inl Out_Of_Bounds)
    \<and> (3 \<le> length data \<longrightarrow>
         cougar_raw_event (Some cougar) drv data sz =
           raw_event_loop (cougar_mapping drv) inp (data ! 1) (data ! 2)
         \<and> (\<exists>es. cougar_raw_event (Some cougar) drv data sz = Inr (0, es)))
    \<and> cougar_raw_event (Some cougar) drv data sz = cougar_raw_event (Some cougar) drv data sz'"
proof -
  have e: "cougar_raw_event (Some cougar) drv data z =
      (case byte_at data 1 of None \<Rightarrow> Inl Out_Of_Bounds
       | Some code \<Rightarrow> (case byte_at data 2 of None \<Rightarrow> Inl Out_Of_Bounds
          | Some action \<Rightarrow> raw_event_loop (cougar_mapping drv) inp code action))" for z
    unfolding cougar_raw_event_def COUGAR_FIELD_CODE_def COUGAR_FIELD_ACTION_def
    using assms(1-5) by simp
  have 1: "cougar_raw_event (Some cougar) drv data sz = Inl Out_Of_Bounds" if "length data < 3"
    using that unfolding e by (auto simp: byte_at_def)
  have 2: "cougar_raw_event (Some cougar) drv data sz =
           raw_event_loop (cougar_mapping drv) inp (data ! 1) (data ! 2)" if "3 \<le> length data"
    using that unfolding e by (simp add: byte_at_def)
  from 1 2 raw_event_loop_terminated [OF assms(6), of inp "data ! 1" "data ! 2"] e [of sz] e [of sz']
  show ?thesis by auto
qed

theorem raw_event_unchecked_reads_witness:
  "cougar_raw_event (Some \<lparr>special_intf = True, shared = Some 11\<rparr>)
     \<lparr>cougar_g6_is_space = 1, cougar_mapping = cougar_mapping_init,
      cougar_udev_list = [(11, \<lparr>kref = 2, enabled = True, dev = vendor_dev, input = Some 5\<rparr>)]\<rparr>
     [1] 1 = Inl Out_Of_Bounds
   \<and> cougar_raw_event (Some \<lparr>special_intf = True, shared = Some 11\<rparr>)
     \<lparr>cougar_g6_is_space = 1, cougar_mapping = cougar_mapping_init,
      cougar_udev_list = [(11, \<lparr>kref = 2, enabled = True, dev = vendor_dev, input = Some 5\<rparr>)]\<rparr>
     [1, 0x83, 1] 3 = Inr (0, [Input_event 5 KEY_F13 1, Input_sync 5])"
  using raw_event_unchecked_reads [where cougar = "\<lparr>special_intf = True, shared = Some 11\<rparr>"
      and p = 11 and inp = 5 and data = "[1]" and sz = 1 and sz' = 1
      and drv = "\<lparr>cougar_g6_is_space = 1, cougar_mapping = cougar_mapping_init,
      cougar_udev_list = [(11, \<lparr>kref = 2, enabled = True, dev = vendor_dev, input = Some 5\<rparr>)]\<rparr>"]
    raw_event_unchecked_reads [where cougar = "\<lparr>special_intf = True, shared = Some 11\<rparr>"
      and p = 11 and inp = 5 and data = "[1, 0x83, 1]" and sz = 3 and sz' = 3
      and drv = "\<lparr>cougar_g6_is_space = 1, cougar_mapping = cougar_mapping_init,
      cougar_udev_list = [(11, \<lparr>kref = 2, enabled = True, dev = vendor_dev, input = Some 5\<rparr>)]\<rparr>"]
  by (simp add: cougar_mapping_init_def COUGAR_KEY_G6_def COUGAR_KEY_G1_def)

section \<open>When the G6 entry is configured\<close>

lemma probe_other_keeps_mapping:
  assumes "cougar_probe env hdev drv = Inr res" "usage hdev \<noteq> HID_GD_KEYBOARD"
  shows "cougar_mapping (probe_driver res) = cougar_mapping drv"
  using assms
  by (auto simp: cougar_probe_def Let_def split: if_splits sum.splits option.splits)

lemma fix_g6_absent:
  "COUGAR_KEY_G6 \<notin> fst ` set tbl \<Longrightarrow> 0 \<in> fst ` set tbl \<Longrightarrow>
     cougar_fix_g6_mapping g6 tbl = Inr (tbl, [Hid_warn ''no mapping defined for G6/spacebar'' []])"
proof (induction tbl)
  case Nil
  then show ?case by simp
next
  case (Cons a tbl)
  obtain c k where a: "a = (c, k)" by (cases a)
  show ?case
  proof (cases "c = 0")
    case True
    with a show ?thesis by simp
  next
    case False
    with Cons.prems a have "COUGAR_KEY_G6 \<notin> fst ` set tbl" "0 \<in> fst ` set tbl" "c \<noteq> COUGAR_KEY_G6"
      by auto
    with Cons.IH False a show ?thesis by simp
  qed
qed

lemma fix_g6_present:
  "raw_event_loop tbl inp COUGAR_KEY_G6 action = Inr (0, [Input_event inp k action, Input_sync inp]) \<Longrightarrow>
     \<exists>tbl'. cougar_fix_g6_mapping g6 tbl =
         Inr (tbl', [Hid_info ''G6 mapped to %s'' [Str (if g6 \<noteq> 0 then ''space'' else ''F18'')]])
       \<and> raw_event_loop tbl' inp COUGAR_KEY_G6 action =
           Inr (0, [Input_event inp (if g6 \<noteq> 0 then KEY_SPACE else KEY_F18) action, Input_sync inp])"
proof (induction tbl)
  case Nil
  then show ?case by simp
next
  case (Cons a tbl)
  obtain c k' where a: "a = (c, k')" by (cases a)
  have g: "COUGAR_KEY_G6 \<noteq> 0" by (simp add: COUGAR_KEY_G6_def)
  show ?case
  proof (cases "c = COUGAR_KEY_G6")
    case True
    with a g show ?thesis by simp
  next
    case False
    with Cons.prems a have c: "c \<noteq> 0"
      and "raw_event_loop tbl inp COUGAR_KEY_G6 action = Inr (0, [Input_event inp k action, Input_sync inp])"
      by (auto split: if_splits)
    from Cons.IH [OF this(2)] False c a show ?thesis by auto
  qed
qed

lemma bind_succeeds:
  assumes "cougar_get_shared_data hdev reg \<noteq> None \<or> kz \<noteq> None"
  shows "\<exists>p reg'. cougar_bind_shared_data kz 0 hdev c reg =
            Inr \<lparr>bind_error = 0, bind_cougar = c\<lparr>shared := Some p\<rparr>, bind_registry = reg',
                 bind_action = True\<rparr> \<and> map_of reg' p \<noteq> None"
proof (cases "cougar_get_shared_data hdev reg")
  case None
  with assms obtain q where "kz = Some q" by auto
  with None show ?thesis
    by (auto simp: cougar_bind_shared_data_def map_add_def split: option.splits)
next
  case (Some a)
  obtain p reg' where a: "a = (p, reg')" by (cases a)
  from get_shared_data_split [OF Some [unfolded a]] have "p \<in> fst ` set reg'" by force
  then have "map_of reg' p \<noteq> None" by (simp add: map_of_eq_None_iff)
  with Some a show ?thesis by (auto simp: cougar_bind_shared_data_def)
qed

lemma probe_keyboard_absent:
  assumes "usage hdev = HID_GD_KEYBOARD" "devm_kzalloc_ok env" "hid_parse_ret env = 0"
    "hid_hw_start_ret env = 0" "devm_add_action_ret env = 0"
    "cougar_get_shared_data hdev (cougar_udev_list drv) \<noteq> None \<or> kzalloc_ret env \<noteq> None"
    "COUGAR_KEY_G6 \<notin> fst ` set (cougar_mapping drv)" "0 \<in> fst ` set (cougar_mapping drv)"
  shows "\<exists>res. cougar_probe env hdev drv = Inr res \<and> probe_ret res = 0
           \<and> cougar_mapping (probe_driver res) = cougar_mapping drv
           \<and> Hid_warn ''no mapping defined for G6/spacebar'' [] \<in> set (probe_effects res)"
proof -
  let ?c = "\<lparr>special_intf = False, shared = None\<rparr>"
  from bind_succeeds [OF assms(6), of ?c] obtain p reg' where
    b: "cougar_bind_shared_data (kzalloc_ret env) 0 hdev ?c (cougar_udev_list drv) =
            Inr \<lparr>bind_error = 0, bind_cougar = ?c\<lparr>shared := Some p\<rparr>, bind_registry = reg',
                 bind_action = True\<rparr>" and m: "map_of reg' p \<noteq> None"
    by blast
  note f = fix_g6_absent [OF assms(7,8), of "cougar_g6_is_space drv"]
  from m obtain sh where "map_of reg' p = Some sh" by auto
  with assms(1-5) show ?thesis
    by (cases "probe_find_input (inputs hdev)")
      (simp_all add: cougar_probe_def b f usage_constants_differ [symmetric])
qed

lemma fixed_lookup:
  "map_of (cougar_mapping_fixed g6) COUGAR_KEY_G6 = Some (if g6 \<noteq> 0 then KEY_SPACE else KEY_F18)"
  by (simp add: cougar_mapping_fixed_def)

text \<open>
  C9, as stated, with the parameter 0, which selects \<open>KEY_F18\<close>: when the module is
  loaded the array maps 0x78 to \<open>KEY_SPACE\<close>, and it still does after the vendor
  interface has been attached.
\<close>

theorem g6_unconfigured_while_attaching:
  "map_of (cougar_mapping (module_loaded 0)) COUGAR_KEY_G6 = Some KEY_SPACE
   \<and> do_calls [Call_probe (env_ok 11) vendor_dev] (module_loaded 0) =
       Inr ((module_loaded 0)\<lparr>cougar_udev_list :=
         [(11, \<lparr>kref = 1, enabled = False, dev = vendor_dev, input = None\<rparr>)]\<rparr>)
   \<and> map_of (cougar_mapping ((module_loaded 0)\<lparr>cougar_udev_list :=
         [(11, \<lparr>kref = 1, enabled = False, dev = vendor_dev, input = None\<rparr>)]\<rparr>)) COUGAR_KEY_G6
       = Some KEY_SPACE"
proof -
  have "do_calls [Call_probe (env_ok 11) vendor_dev] (module_loaded 0) =
       Inr ((module_loaded 0)\<lparr>cougar_udev_list :=
         [(11, \<lparr>kref = 1, enabled = False, dev = vendor_dev, input = None\<rparr>)]\<rparr>)"
    by (simp only: do_calls.simps do_call.simps probe_vendor_first sum.case probe_result.select_convs)
  then show ?thesis
    by (simp add: module_loaded_def cougar_mapping_init_def)
qed

text \<open>
  C9, amended. The entry for 0x78 is configured by every attach of the keyboard
  interface that returns 0: the array afterwards is the result of
  \<^verbatim>\<open>cougar_fix_g6_mapping\<close> with the parameter as it is then. An attach of another
  interface leaves the array alone. Where 0x78 is mapped at all,
  \<^verbatim>\<open>cougar_fix_g6_mapping\<close> maps it to \<open>KEY_SPACE\<close> for a parameter other than 0 and
  to \<open>KEY_F18\<close> for 0. In every state reached from \<open>module_loaded cfg\<close>, writes
  of the parameter included, in which some shared data is enabled (without which no
  raw event is translated), 0x78 is mapped to the key selected by the value the
  parameter had at the last attach of the keyboard interface; that is \<open>cfg\<close>, the
  present value, where the parameter has not been written since. Where the array
  has no row for 0x78, the attach of the keyboard interface warns, leaves the array
  alone and returns 0.
\<close>

theorem g6_configured_by_keyboard_attach:
  "(cougar_probe env hdev drv = Inr res \<and> usage hdev = HID_GD_KEYBOARD \<and> probe_ret res = 0
      \<longrightarrow> (\<exists>es. cougar_fix_g6_mapping (cougar_g6_is_space drv) (cougar_mapping drv)
                  = Inr (cougar_mapping (probe_driver res), es)
                \<and> set es \<subseteq> set (probe_effects res)))
   \<and> (cougar_probe env hdev drv = Inr res \<and> usage hdev \<noteq> HID_GD_KEYBOARD
      \<longrightarrow> cougar_mapping (probe_driver res) = cougar_mapping drv)
   \<and> (raw_event_loop tbl inp COUGAR_KEY_G6 action = Inr (0, [Input_event inp k action, Input_sync inp])
      \<longrightarrow> (\<exists>tbl'. cougar_fix_g6_mapping cfg tbl =
              Inr (tbl', [Hid_info ''G6 mapped to %s'' [Str (if cfg \<noteq> 0 then ''space'' else ''F18'')]])
            \<and> raw_event_loop tbl' inp COUGAR_KEY_G6 action =
                Inr (0, [Input_event inp (if cfg \<noteq> 0 then KEY_SPACE else KEY_F18) action,
                         Input_sync inp])))
   \<and> (do_calls cs (module_loaded cfg) = Inr drv' \<and> map_of (cougar_udev_list drv') p = Some sh
        \<and> enabled sh
      \<longrightarrow> (\<exists>v. last_fix cs (module_loaded cfg) None = Some v
            \<and> map_of (cougar_mapping drv') COUGAR_KEY_G6 = Some (if v \<noteq> 0 then KEY_SPACE else KEY_F18)
            \<and> (\<not> parameter_written cs \<longrightarrow> v = cfg \<and> cougar_g6_is_space drv' = cfg)))
   \<and> (usage hdev = HID_GD_KEYBOARD \<and> devm_kzalloc_ok env \<and> hid_parse_ret env = 0
        \<and> hid_hw_start_ret env = 0 \<and> devm_add_action_ret env = 0
        \<and> (cougar_get_shared_data hdev (cougar_udev_list drv) \<noteq> None \<or> kzalloc_ret env \<noteq> None)
        \<and> COUGAR_KEY_G6 \<notin> fst ` set (cougar_mapping drv) \<and> 0 \<in> fst ` set (cougar_mapping drv)
      \<longrightarrow> (\<exists>r. cougar_probe env hdev drv = Inr r \<and> probe_ret r = 0
            \<and> cougar_mapping (probe_driver r) = cougar_mapping drv
            \<and> Hid_warn ''no mapping defined for G6/spacebar'' [] \<in> set (probe_effects r)))"
proof (intro conjI impI)
  assume "cougar_probe env hdev drv = Inr res \<and> usage hdev = HID_GD_KEYBOARD \<and> probe_ret res = 0"
  then show "\<exists>es. cougar_fix_g6_mapping (cougar_g6_is_space drv) (cougar_mapping drv)
                  = Inr (cougar_mapping (probe_driver res), es)
                \<and> set es \<subseteq> set (probe_effects res)"
    by (intro probe_keyboard_fixes [of env hdev]) simp_all
next
  assume "cougar_probe env hdev drv = Inr res \<and> usage hdev \<noteq> HID_GD_KEYBOARD"
  then show "cougar_mapping (probe_driver res) = cougar_mapping drv"
    by (intro probe_other_keeps_mapping [of env hdev]) simp_all
next
  assume "raw_event_loop tbl inp COUGAR_KEY_G6 action = Inr (0, [Input_event inp k action, Input_sync inp])"
  then show "\<exists>tbl'. cougar_fix_g6_mapping cfg tbl =
              Inr (tbl', [Hid_info ''G6 mapped to %s'' [Str (if cfg \<noteq> 0 then ''space'' else ''F18'')]])
            \<and> raw_event_loop tbl' inp COUGAR_KEY_G6 action =
                Inr (0, [Input_event inp (if cfg \<noteq> 0 then KEY_SPACE else KEY_F18) action,
                         Input_sync inp])"
    by (rule fix_g6_present)
next
  assume "do_calls cs (module_loaded cfg) = Inr drv' \<and> map_of (cougar_udev_list drv') p = Some sh
        \<and> enabled sh"
  then have "\<exists>v. last_fix cs (module_loaded cfg) None = Some v
           \<and> cougar_mapping drv' = cougar_mapping_fixed v
           \<and> (\<not> parameter_written cs \<longrightarrow> v = cfg \<and> cougar_g6_is_space drv' = cfg)"
    by (intro reachable_enabled_fixed [of cs cfg drv' p sh]) simp_all
  then show "\<exists>v. last_fix cs (module_loaded cfg) None = Some v
            \<and> map_of (cougar_mapping drv') COUGAR_KEY_G6 = Some (if v \<noteq> 0 then KEY_SPACE else KEY_F18)
            \<and> (\<not> parameter_written cs \<longrightarrow> v = cfg \<and> cougar_g6_is_space drv' = cfg)"
    using fixed_lookup by metis
next
  assume "usage hdev = HID_GD_KEYBOARD \<and> devm_kzalloc_ok env \<and> hid_parse_ret env = 0
        \<and> hid_hw_start_ret env = 0 \<and> devm_add_action_ret env = 0
        \<and> (cougar_get_shared_data hdev (cougar_udev_list drv) \<noteq> None \<or> kzalloc_ret env \<noteq> None)
        \<and> COUGAR_KEY_G6 \<notin> fst ` set (cougar_mapping drv) \<and> 0 \<in> fst ` set (cougar_mapping drv)"
  then show "\<exists>r. cougar_probe env hdev drv = Inr r \<and> probe_ret r = 0
            \<and> cougar_mapping (probe_driver r) = cougar_mapping drv
            \<and> Hid_warn ''no mapping defined for G6/spacebar'' [] \<in> set (probe_effects r)"
    by (intro probe_keyboard_absent) simp_all
qed

theorem g6_configured_by_keyboard_attach_witness:
  "(\<exists>es. cougar_fix_g6_mapping 0 cougar_mapping_init = Inr (cougar_mapping_fixed 0, es))
   \<and> cougar_mapping ((module_loaded 0)\<lparr>cougar_udev_list :=
         [(11, \<lparr>kref = 1, enabled = False, dev = vendor_dev, input = None\<rparr>)]\<rparr>)
       = cougar_mapping (module_loaded 0)
   \<and> (\<exists>tbl'. cougar_fix_g6_mapping 0 cougar_mapping_init =
         Inr (tbl', [Hid_info ''G6 mapped to %s'' [Str ''F18'']])
       \<and> raw_event_loop tbl' 5 COUGAR_KEY_G6 1 = Inr (0, [Input_event 5 KEY_F18 1, Input_sync 5]))
   \<and> map_of (cougar_mapping_fixed 0) COUGAR_KEY_G6 = Some KEY_F18
   \<and> (\<exists>r. cougar_probe (env_ok 11) keyboard_dev
          \<lparr>cougar_g6_is_space = 1,
           cougar_mapping = [(COUGAR_KEY_G1, KEY_F13), (0, KEY_RESERVED)],
           cougar_udev_list = []\<rparr> = Inr r
        \<and> probe_ret r = 0
        \<and> cougar_mapping (probe_driver r) = [(COUGAR_KEY_G1, KEY_F13), (0, KEY_RESERVED)]
        \<and> Hid_warn ''no mapping defined for G6/spacebar'' [] \<in> set (probe_effects r))"
proof -
  let ?one = "(module_loaded 0)\<lparr>cougar_udev_list :=
         [(11, \<lparr>kref = 1, enabled = False, dev = vendor_dev, input = None\<rparr>)]\<rparr>"
  let ?two = "\<lparr>cougar_g6_is_space = 0, cougar_mapping = cougar_mapping_fixed 0,
            cougar_udev_list = [(11, \<lparr>kref = 2, enabled = True, dev = vendor_dev, input = Some 5\<rparr>)]\<rparr>"
  let ?bad = "\<lparr>cougar_g6_is_space = 1,
           cougar_mapping = [(COUGAR_KEY_G1, KEY_F13), (0, KEY_RESERVED)],
           cougar_udev_list = []\<rparr>"
  let ?kres = "\<lparr>probe_ret = 0, probe_cougar = Some \<lparr>special_intf = False, shared = Some 11\<rparr>,
          probe_drvdata = True, probe_action = True, probe_driver = ?two,
          probe_effects = [Hid_hw_start HID_CONNECT_DEFAULT,
            Hid_info ''G6 mapped to %s'' [Str (if (0::int) \<noteq> 0 then ''space'' else ''F18'')]]\<rparr>"
  let ?vres = "\<lparr>probe_ret = 0, probe_cougar = Some \<lparr>special_intf = True, shared = Some 11\<rparr>,
          probe_drvdata = True, probe_action = True, probe_driver = ?one,
          probe_effects = [Hid_hw_start HID_CONNECT_HIDRAW, Hid_hw_open]\<rparr>"
  have uk: "usage keyboard_dev = HID_GD_KEYBOARD" by (simp add: keyboard_dev_def)
  have uv: "usage vendor_dev \<noteq> HID_GD_KEYBOARD"
    by (simp add: vendor_dev_def usage_constants_differ)
  have 1: "\<exists>es. cougar_fix_g6_mapping 0 cougar_mapping_init = Inr (cougar_mapping_fixed 0, es)"
    using g6_configured_by_keyboard_attach [where env = "env_ok 12" and hdev = keyboard_dev
        and drv = ?one and res = ?kres, THEN conjunct1] probe_keyboard_second [of 0] uk
    by (auto simp: module_loaded_def)
  have 2: "cougar_mapping ?one = cougar_mapping (module_loaded 0)"
    using g6_configured_by_keyboard_attach [where env = "env_ok 11" and hdev = vendor_dev
        and drv = "module_loaded 0" and res = ?vres, THEN conjunct2, THEN conjunct1]
      probe_vendor_first [of 0] uv
    by simp
  have 3: "\<exists>tbl'. cougar_fix_g6_mapping 0 cougar_mapping_init =
         Inr (tbl', [Hid_info ''G6 mapped to %s'' [Str ''F18'']])
       \<and> raw_event_loop tbl' 5 COUGAR_KEY_G6 1 = Inr (0, [Input_event 5 KEY_F18 1, Input_sync 5])"
    using g6_configured_by_keyboard_attach [where tbl = cougar_mapping_init and inp = 5
        and action = 1 and k = KEY_SPACE and cfg = 0, THEN conjunct2, THEN conjunct2, THEN conjunct1]
    by (simp add: cougar_mapping_init_def COUGAR_KEY_G6_def)
  have 4: "map_of (cougar_mapping_fixed 0) COUGAR_KEY_G6 = Some KEY_F18"
    using g6_configured_by_keyboard_attach [where cs = "[Call_probe (env_ok 11) vendor_dev,
          Call_set_g6_is_space 0, Call_probe (env_ok 12) keyboard_dev]" and cfg = 1 and drv' = ?two
        and p = 11 and sh = "\<lparr>kref = 2, enabled = True, dev = vendor_dev, input = Some 5\<rparr>",
        THEN conjunct2, THEN conjunct2, THEN conjunct2, THEN conjunct1]
      write_then_attach last_fix_write_then_attach
    by simp
  have 5: "\<exists>r. cougar_probe (env_ok 11) keyboard_dev ?bad = Inr r \<and> probe_ret r = 0
        \<and> cougar_mapping (probe_driver r) = [(COUGAR_KEY_G1, KEY_F13), (0, KEY_RESERVED)]
        \<and> Hid_warn ''no mapping defined for G6/spacebar'' [] \<in> set (probe_effects r)"
    using g6_configured_by_keyboard_attach [where env = "env_ok 11" and hdev = keyboard_dev
        and drv = ?bad, THEN conjunct2, THEN conjunct2, THEN conjunct2, THEN conjunct2] uk
    by (simp add: env_ok_def COUGAR_KEY_G6_def COUGAR_KEY_G1_def)
  from 1 2 3 4 5 show ?thesis by blast
qed

end
